theory Spec2Isabelle
  imports Main "HOL-Library.AList"
begin

section \<open>Values exchanged with the Python runtime\<close>

text \<open>
  The server handles whatever \<^verbatim>\<open>json.loads\<close> returns. A parsed value is one of the
  constructors below; a Python \<^verbatim>\<open>dict\<close> is an association list in insertion order,
  read with \<open>map_of\<close>. Strings are sequences of code points below 256. JSON numbers
  with a fraction (Python floats) are outside the model.
\<close>

datatype json =
    JNull
  | JBool bool
  | JInt int
  | JStr string
  | JArr "json list"
  | JObj "(string \<times> json) list"

datatype py_error =
    KeyError
  | TypeError
  | AttributeError
  | ValueError
  | JSONDecodeError
  | IntegrityError
  | DriverError
  | ConnectionResetError

text \<open>\<^verbatim>\<open>d[k]\<close> with a string key: only a dict can be subscripted by a string.\<close>

fun py_getitem :: "json \<Rightarrow> string \<Rightarrow> py_error + json" where
  "py_getitem (JObj kvs) k = (case map_of kvs k of None \<Rightarrow> Inl KeyError | Some v \<Rightarrow> Inr v)"
| "py_getitem _ k = Inl TypeError"

text \<open>\<^verbatim>\<open>d.get(k)\<close>: only a dict has the method; a missing key gives \<^verbatim>\<open>None\<close>.\<close>

fun py_get :: "json \<Rightarrow> string \<Rightarrow> py_error + json option" where
  "py_get (JObj kvs) k = Inr (map_of kvs k)"
| "py_get _ k = Inl AttributeError"

text \<open>A \<^verbatim>\<open>str | None\<close> attribute placed in a JSON document.\<close>

definition opt_str :: "string option \<Rightarrow> json" where
  "opt_str x = (case x of None \<Rightarrow> JNull | Some s \<Rightarrow> JStr s)"

text \<open>\<^verbatim>\<open>str(x)\<close> of a \<^verbatim>\<open>str | None\<close> attribute, as an f-string formats it.\<close>

definition str_of_opt :: "string option \<Rightarrow> string" where
  "str_of_opt x = (case x of None \<Rightarrow> ''None'' | Some s \<Rightarrow> s)"

section \<open>Library functions the server calls\<close>

text \<open>
  The cryptography, bcrypt, uuid, base64 and sqlite3 libraries are not part of the
  repository. Their functions are the fields of an environment that every operation
  takes as its first argument:
  \<^item> \<open>uuid5 ns name\<close>: \<^verbatim>\<open>str(uuid.uuid5(ns, name))\<close>;
  \<^item> \<open>hashpw pw\<close>: \<^verbatim>\<open>bcrypt.hashpw(pw, bcrypt.gensalt())\<close>, with the salt the call draws, or
    the exception the call raises (bcrypt refuses some passwords with a \<^verbatim>\<open>ValueError\<close>:
    in its current releases, one of more than 72 bytes);
  \<^item> \<open>checkpw pw h\<close>: \<^verbatim>\<open>bcrypt.checkpw(pw, h)\<close>, or the exception the call raises;
  \<^item> \<open>b64decode s\<close>: \<^verbatim>\<open>base64.b64decode(s)\<close>, \<open>None\<close> when it raises;
  \<^item> \<open>rsa_decrypt c\<close>: RSA-OAEP decryption under the server's private key, \<open>None\<close>
    when it raises;
  \<^item> \<open>bind_text v\<close>: what a TEXT column holds after sqlite3 bound the Python value
    \<open>v\<close> as a statement parameter (\<open>None\<close> is SQL NULL), or the driver's error;
  \<^item> \<open>py_str v\<close>: \<^verbatim>\<open>str(v)\<close> for a number, a list or a dict.
\<close>

type_synonym bytes = "nat list"

record env =
  uuid5 :: "string \<Rightarrow> string \<Rightarrow> string"
  hashpw :: "string \<Rightarrow> py_error + string"
  checkpw :: "string \<Rightarrow> string \<Rightarrow> py_error + bool"
  b64decode :: "string \<Rightarrow> bytes option"
  rsa_decrypt :: "bytes \<Rightarrow> bytes option"
  bind_text :: "json \<Rightarrow> py_error + string option"
  py_str :: "json \<Rightarrow> string"

section \<open>Sessions, registry and account store\<close>

text \<open>
  \<open>phase\<close> is the point \<^verbatim>\<open>handle_connection\<close> has reached: waiting for the
  \<^verbatim>\<open>key_exchange\<close> line, inside the encrypted loop, or finished (writer closed).
\<close>

datatype phase = AWAIT_KEY | ESTABLISHED | CLOSED

text \<open>
  A frame written to a connection: a plaintext JSON line, or an
  \<^verbatim>\<open>encrypted_payload\<close> line carrying the given inner JSON document under the
  session's key.
\<close>

datatype frame = Plain json | Sealed json

record session =
  user_id :: "string option"
  full_name :: "string option"
  email :: "string option"
  is_authenticated :: bool
  secure_channel :: "bytes option"
  phase :: phase
  written :: "frame list"

record user_row =
  u_id :: string
  u_full_name :: "string option"
  u_email :: string
  u_password :: string

record msg_row =
  m_sender_id :: string
  m_recipient_id :: string
  m_payload :: string

text \<open>
  The server: the session objects (a handle is the position in the list), the
  registry dict \<^verbatim>\<open>_online_users\<close> from user id to session handle, and the two tables of
  the account store. The columns \<^verbatim>\<open>created_at\<close>, \<^verbatim>\<open>timestamp\<close>, \<^verbatim>\<open>status\<close> and the
  autoincrement message id are not modelled.
\<close>

record server =
  public_key_pem :: string
  sessions :: "session list"
  registry :: "(string \<times> nat) list"
  users :: "user_row list"
  messages :: "msg_row list"

text \<open>What a coroutine leaves behind: the state, and the exception if one escaped.\<close>

type_synonym outcome = "server \<times> py_error option"

subsection \<open>\<^verbatim>\<open>ClientSession.send_json\<close>\<close>

text \<open>
  Without a secure channel nothing is sent and nothing is raised. A write to a writer
  that was closed is dropped and \<^verbatim>\<open>drain\<close> raises. A handle outside the list does not
  occur; the state is returned as it is.
\<close>

definition send_json :: "nat \<Rightarrow> json \<Rightarrow> server \<Rightarrow> outcome" where
  "send_json i data st =
     (if i < length (sessions st) then
        (let s = sessions st ! i in
         if secure_channel s = None then (st, None)
         else if phase s = CLOSED then (st, Some ConnectionResetError)
         else (st\<lparr>sessions := (sessions st)[i := s\<lparr>written := written s @ [Sealed data]\<rparr>]\<rparr>,
               None))
      else (st, None))"

definition response :: "(string \<times> json) list \<Rightarrow> json" where
  "response payload = JObj [(''type'', JStr ''response''), (''payload'', JObj payload)]"

definition error_response :: "string \<Rightarrow> json" where
  "error_response msg = response [(''status'', JStr ''error''), (''message'', JStr msg)]"

subsection \<open>\<^verbatim>\<open>UserRegistry\<close>\<close>

definition register_user :: "string \<Rightarrow> nat \<Rightarrow> (string \<times> nat) list \<Rightarrow> (string \<times> nat) list" where
  "register_user uid h reg = AList.update uid h reg"

definition unregister_user :: "string \<Rightarrow> (string \<times> nat) list \<Rightarrow> (string \<times> nat) list" where
  "unregister_user uid reg = (if uid \<in> fst ` set reg then AList.delete uid reg else reg)"

text \<open>
  \<^verbatim>\<open>self._online_users.get(user_id)\<close> with the value taken from the envelope: a list or
  a dict is unhashable, any other value that is not a string equals no key.
\<close>

fun get_session_by_id :: "json \<Rightarrow> (string \<times> nat) list \<Rightarrow> py_error + nat option" where
  "get_session_by_id (JStr uid) reg = Inr (map_of reg uid)"
| "get_session_by_id (JArr _) reg = Inl TypeError"
| "get_session_by_id (JObj _) reg = Inl TypeError"
| "get_session_by_id _ reg = Inr None"

definition online_entry :: "session \<Rightarrow> json" where
  "online_entry s = JObj [(''id'', opt_str (user_id s)), (''full_name'', opt_str (full_name s))]"

definition get_online_users_list :: "server \<Rightarrow> json list" where
  "get_online_users_list st =
     map online_entry
       (filter is_authenticated (map (\<lambda>(uid, h). sessions st ! h) (registry st)))"

subsection \<open>\<^verbatim>\<open>Database.store_message\<close>\<close>

text \<open>
  \<^verbatim>\<open>payload.encode('utf-8')\<close> is evaluated first and needs a string; then the three
  values are bound into NOT NULL columns. The stored payload is the text whose UTF-8
  encoding the table holds.
\<close>

definition store_message :: "env \<Rightarrow> string option \<Rightarrow> json \<Rightarrow> json \<Rightarrow> server \<Rightarrow> py_error + server" where
  "store_message E sender_id recipient_id payload st =
     (case payload of
        JStr text \<Rightarrow>
          (case sender_id of
             None \<Rightarrow> Inl IntegrityError
           | Some sid \<Rightarrow>
               (case bind_text E recipient_id of
                  Inl e \<Rightarrow> Inl e
                | Inr None \<Rightarrow> Inl IntegrityError
                | Inr (Some rid) \<Rightarrow>
                    Inr (st\<lparr>messages := messages st @
                           [\<lparr>m_sender_id = sid, m_recipient_id = rid, m_payload = text\<rparr>]\<rparr>)))
      | _ \<Rightarrow> Inl AttributeError)"

subsection \<open>\<^verbatim>\<open>Router.route_chat_message\<close>\<close>

definition delivery_envelope :: "session \<Rightarrow> json \<Rightarrow> json" where
  "delivery_envelope sender message_text =
     JObj [(''type'', JStr ''new_message''),
           (''payload'', JObj [(''sender_id'', opt_str (user_id sender)),
                               (''sender_name'', opt_str (full_name sender)),
                               (''text'', message_text)])]"

definition offline_reply :: json where
  "offline_reply =
     response [(''status'', JStr ''info''),
               (''message'', JStr ''Recipient is offline. Message stored.'')]"

text \<open>The body of the \<^verbatim>\<open>try\<close> block.\<close>

definition route_try :: "env \<Rightarrow> nat \<Rightarrow> json \<Rightarrow> server \<Rightarrow> outcome" where
  "route_try E sender envelope st =
     (case py_getitem envelope ''payload'' of
        Inl e \<Rightarrow> (st, Some e)
      | Inr payload \<Rightarrow>
     (case py_getitem payload ''recipient_id'' of
        Inl e \<Rightarrow> (st, Some e)
      | Inr recipient_id \<Rightarrow>
     (case py_getitem payload ''text'' of
        Inl e \<Rightarrow> (st, Some e)
      | Inr message_text \<Rightarrow>
     (let sender_session = sessions st ! sender in
      case get_session_by_id recipient_id (registry st) of
        Inl e \<Rightarrow> (st, Some e)
      | Inr (Some recipient_session) \<Rightarrow>
          send_json recipient_session (delivery_envelope sender_session message_text) st
      | Inr None \<Rightarrow>
          (case store_message E (user_id sender_session) recipient_id message_text st of
             Inl e \<Rightarrow> (st, Some e)
           | Inr st' \<Rightarrow> send_json sender offline_reply st')))))"

text \<open>The \<^verbatim>\<open>except (KeyError, TypeError)\<close> clause around it.\<close>

definition route_chat_message :: "env \<Rightarrow> nat \<Rightarrow> json \<Rightarrow> server \<Rightarrow> outcome" where
  "route_chat_message E sender envelope st =
     (case route_try E sender envelope st of
        (st', Some e) \<Rightarrow>
          (if e = KeyError \<or> e = TypeError
           then send_json sender (error_response ''Malformed chat envelope.'') st'
           else (st', Some e))
      | (st', None) \<Rightarrow> (st', None))"

subsection \<open>Email normalisation and \<^verbatim>\<open>Database._generate_user_id\<close>\<close>

text \<open>
  \<^verbatim>\<open>str.strip()\<close> removes the characters for which \<^verbatim>\<open>str.isspace\<close> holds from both
  ends; \<^verbatim>\<open>str.lower()\<close> maps A-Z and the upper-case letters of the Latin-1 block to
  their lower-case forms, 32 code points higher.
\<close>

definition py_isspace :: "char \<Rightarrow> bool" where
  "py_isspace c = ((of_char c :: nat) \<in> {9, 10, 11, 12, 13, 28, 29, 30, 31, 32, 133, 160})"

definition py_lower_char :: "char \<Rightarrow> char" where
  "py_lower_char c =
     (let n = (of_char c :: nat) in
      if (65 \<le> n \<and> n \<le> 90) \<or> (192 \<le> n \<and> n \<le> 222 \<and> n \<noteq> 215)
      then char_of (n + 32) else c)"

definition py_strip :: "string \<Rightarrow> string" where
  "py_strip s = rev (dropWhile py_isspace (rev (dropWhile py_isspace s)))"

definition py_lower :: "string \<Rightarrow> string" where
  "py_lower s = map py_lower_char s"

definition NAMESPACE_DNS :: string where
  "NAMESPACE_DNS = ''6ba7b810-9dad-11d1-80b4-00c04fd430c8''"

definition generate_user_id :: "env \<Rightarrow> string \<Rightarrow> string" where
  "generate_user_id E email' =
     (let norm_email = py_lower (py_strip email') in uuid5 E NAMESPACE_DNS norm_email)"

text \<open>The normalisation as the specification words it: lowercase plus trim.\<close>

definition normalize :: "string \<Rightarrow> string" where
  "normalize e = py_strip (py_lower e)"

subsection \<open>\<^verbatim>\<open>Database.add_user\<close> and \<^verbatim>\<open>get_user_by_email\<close>\<close>

text \<open>
  The INSERT violates a constraint when the id (primary key) or the email (unique) is
  already in the table; \<^verbatim>\<open>aiosqlite.IntegrityError\<close> is caught and \<^verbatim>\<open>None\<close> returned.
  Any other error of the driver escapes.
\<close>

definition add_user :: "env \<Rightarrow> json \<Rightarrow> string \<Rightarrow> string \<Rightarrow> server \<Rightarrow> server \<times> (py_error + string option)" where
  "add_user E full_name' email' password st =
     (let uid = generate_user_id E email' in
      case bind_text E full_name' of
        Inl e \<Rightarrow> (if e = IntegrityError then (st, Inr None) else (st, Inl e))
      | Inr fn \<Rightarrow>
          (if \<exists>r \<in> set (users st). u_id r = uid \<or> u_email r = email'
           then (st, Inr None)
           else (st\<lparr>users := users st @
                    [\<lparr>u_id = uid, u_full_name = fn, u_email = email', u_password = password\<rparr>]\<rparr>,
                 Inr (Some uid))))"

definition get_user_by_email :: "string \<Rightarrow> server \<Rightarrow> user_row option" where
  "get_user_by_email email' st = find (\<lambda>r. u_email r = email') (users st)"

subsection \<open>\<^verbatim>\<open>auth.py\<close>\<close>

text \<open>
  \<^verbatim>\<open>password.encode('utf-8')\<close> needs a string in both functions. Neither function
  catches anything: what bcrypt raises escapes to the caller.
\<close>

definition hash_password :: "env \<Rightarrow> json \<Rightarrow> py_error + string" where
  "hash_password E password =
     (case password of JStr pw \<Rightarrow> hashpw E pw | _ \<Rightarrow> Inl AttributeError)"

definition check_password :: "env \<Rightarrow> json \<Rightarrow> string \<Rightarrow> py_error + bool" where
  "check_password E password hashed_password =
     (case password of JStr pw \<Rightarrow> checkpw E pw hashed_password | _ \<Rightarrow> Inl AttributeError)"

definition authenticate :: "env \<Rightarrow> string \<Rightarrow> json \<Rightarrow> server \<Rightarrow> py_error + user_row option" where
  "authenticate E email' password st =
     (let normalized_email = py_lower (py_strip email') in
      case get_user_by_email normalized_email st of
        None \<Rightarrow> Inr None
      | Some user_row \<Rightarrow>
          (case check_password E password (u_password user_row) of
             Inl e \<Rightarrow> Inl e
           | Inr True \<Rightarrow> Inr (Some user_row)
           | Inr False \<Rightarrow> Inr None))"

subsection \<open>\<^verbatim>\<open>SecureChannel.__init__\<close> and \<^verbatim>\<open>ClientSession._handle_key_exchange\<close>\<close>

definition SecureChannel :: "bytes \<Rightarrow> py_error + bytes" where
  "SecureChannel aes_key = (if length aes_key \<noteq> 32 then Inl ValueError else Inr aes_key)"

definition handshake_complete :: json where
  "handshake_complete =
     JObj [(''type'', JStr ''handshake_complete''),
           (''payload'', JObj [(''message'', JStr ''Secure channel established.'')])]"

text \<open>
  Every exception inside is caught and turns into the result \<^verbatim>\<open>False\<close>;
  \<^verbatim>\<open>base64.b64decode\<close> raises on a value that is neither a string nor bytes.
\<close>

definition handle_key_exchange :: "env \<Rightarrow> nat \<Rightarrow> json \<Rightarrow> server \<Rightarrow> server \<times> bool" where
  "handle_key_exchange E i envelope st =
     (case py_getitem envelope ''payload'' of
        Inl e \<Rightarrow> (st, False)
      | Inr payload \<Rightarrow>
     (case py_getitem payload ''key'' of
        Inl e \<Rightarrow> (st, False)
      | Inr (JStr encrypted_key_b64) \<Rightarrow>
          (case b64decode E encrypted_key_b64 of
             None \<Rightarrow> (st, False)
           | Some encrypted_key \<Rightarrow>
          (case rsa_decrypt E encrypted_key of
             None \<Rightarrow> (st, False)
           | Some aes_key \<Rightarrow>
          (case SecureChannel aes_key of
             Inl e \<Rightarrow> (st, False)
           | Inr ch \<Rightarrow>
               (let st1 = st\<lparr>sessions := (sessions st)[i := (sessions st ! i)\<lparr>secure_channel := Some ch\<rparr>]\<rparr>
                in case send_json i handshake_complete st1 of
                     (st2, None) \<Rightarrow> (st2, True)
                   | (st2, Some e) \<Rightarrow> (st2, False)))))
      | Inr _ \<Rightarrow> (st, False)))"

subsection \<open>\<^verbatim>\<open>ClientSession._perform_login\<close>\<close>

definition login_ok :: "session \<Rightarrow> json" where
  "login_ok s =
     response [(''status'', JStr ''ok''),
               (''message'', JStr (''Login successful. Welcome, '' @ str_of_opt (full_name s) @ ''!'')),
               (''user_info'', JObj [(''id'', opt_str (user_id s)),
                                     (''full_name'', opt_str (full_name s)),
                                     (''email'', opt_str (email s))])]"

definition login_try :: "env \<Rightarrow> nat \<Rightarrow> json \<Rightarrow> server \<Rightarrow> outcome" where
  "login_try E i envelope st =
     (case py_getitem envelope ''payload'' of
        Inl e \<Rightarrow> (st, Some e)
      | Inr payload \<Rightarrow>
     (case py_getitem payload ''email'' of
        Inl e \<Rightarrow> (st, Some e)
      | Inr email' \<Rightarrow>
     (case py_getitem payload ''password'' of
        Inl e \<Rightarrow> (st, Some e)
      | Inr password \<Rightarrow>
     (case email' of
        JStr em \<Rightarrow>
          (let normalized_email = py_lower (py_strip em) in
           case authenticate E normalized_email password st of
             Inl e \<Rightarrow> (st, Some e)
           | Inr (Some user_data) \<Rightarrow>
               (let s = (sessions st ! i)
                      \<lparr>user_id := Some (u_id user_data),
                       full_name := u_full_name user_data,
                       email := Some (u_email user_data),
                       is_authenticated := True\<rparr>;
                    st1 = st\<lparr>sessions := (sessions st)[i := s],
                             registry := register_user (u_id user_data) i (registry st)\<rparr>
                in send_json i (login_ok s) st1)
           | Inr None \<Rightarrow>
               send_json i (error_response ''Login failed. Invalid credentials.'') st)
      | _ \<Rightarrow> (st, Some AttributeError)))))"

definition perform_login :: "env \<Rightarrow> nat \<Rightarrow> json \<Rightarrow> server \<Rightarrow> outcome" where
  "perform_login E i envelope st =
     (case login_try E i envelope st of
        (st', Some e) \<Rightarrow>
          (if e = KeyError \<or> e = TypeError
           then send_json i (error_response ''Malformed login envelope.'') st'
           else (st', Some e))
      | (st', None) \<Rightarrow> (st', None))"

subsection \<open>\<^verbatim>\<open>ClientSession._perform_signup\<close>\<close>

definition signup_ok :: json where
  "signup_ok =
     response [(''status'', JStr ''ok''),
               (''message'', JStr ''Sign-up successful. Please login to authenticate.'')]"

definition signup_try :: "env \<Rightarrow> nat \<Rightarrow> json \<Rightarrow> server \<Rightarrow> outcome" where
  "signup_try E i envelope st =
     (case py_get envelope ''type'' of
        Inl e \<Rightarrow> (st, Some e)
      | Inr msg_type \<Rightarrow>
     (if msg_type \<noteq> Some (JStr ''signup'')
      then send_json i (error_response ''Invalid type for signup'') st
      else
     (case py_getitem envelope ''payload'' of
        Inl e \<Rightarrow> (st, Some e)
      | Inr payload \<Rightarrow>
     (case py_getitem payload ''full_name'' of
        Inl e \<Rightarrow> (st, Some e)
      | Inr full_name' \<Rightarrow>
     (case py_getitem payload ''email'' of
        Inl e \<Rightarrow> (st, Some e)
      | Inr email' \<Rightarrow>
     (case py_getitem payload ''password'' of
        Inl e \<Rightarrow> (st, Some e)
      | Inr password \<Rightarrow>
     (case email' of
        JStr em \<Rightarrow>
          (let normalized_email = py_lower (py_strip em) in
           case hash_password E password of
             Inl e \<Rightarrow> (st, Some e)
           | Inr hashed_pw \<Rightarrow>
               (case add_user E full_name' normalized_email hashed_pw st of
                  (st1, Inl e) \<Rightarrow> (st1, Some e)
                | (st1, Inr created_id) \<Rightarrow>
                    (if created_id \<noteq> None \<and> created_id \<noteq> Some []
                     then send_json i signup_ok st1
                     else send_json i (error_response ''Sign-up failed. Email already exists.'') st1)))
      | _ \<Rightarrow> (st, Some AttributeError))))))))"

definition perform_signup :: "env \<Rightarrow> nat \<Rightarrow> json \<Rightarrow> server \<Rightarrow> outcome" where
  "perform_signup E i envelope st =
     (case signup_try E i envelope st of
        (st', Some e) \<Rightarrow>
          (if e = KeyError \<or> e = TypeError
           then send_json i (error_response ''Malformed sign-up envelope.'') st'
           else (st', Some e))
      | (st', None) \<Rightarrow> (st', None))"

subsection \<open>\<^verbatim>\<open>ClientSession._process_message\<close>\<close>

text \<open>The f-string \<^verbatim>\<open>{msg_type}\<close>: \<^verbatim>\<open>str\<close> of whatever \<^verbatim>\<open>envelope.get("type")\<close> gave.\<close>

definition format_type :: "env \<Rightarrow> json option \<Rightarrow> string" where
  "format_type E msg_type =
     (case msg_type of
        None \<Rightarrow> ''None''
      | Some (JStr s) \<Rightarrow> s
      | Some JNull \<Rightarrow> ''None''
      | Some (JBool b) \<Rightarrow> (if b then ''True'' else ''False'')
      | Some v \<Rightarrow> py_str E v)"

definition process_message :: "env \<Rightarrow> nat \<Rightarrow> json \<Rightarrow> server \<Rightarrow> outcome" where
  "process_message E i envelope st =
     (case py_get envelope ''type'' of
        Inl e \<Rightarrow> (st, Some e)
      | Inr msg_type \<Rightarrow>
          (if msg_type = Some (JStr ''chat'') then route_chat_message E i envelope st
           else if msg_type = Some (JStr ''whoisonline'') then
             send_json i (response [(''status'', JStr ''ok''),
                                    (''users'', JArr (get_online_users_list st))]) st
           else send_json i (error_response (''Unknown command type: '' @ format_type E msg_type)) st))"

subsection \<open>\<^verbatim>\<open>ClientSession.handle_connection\<close>\<close>

text \<open>
  What \<^verbatim>\<open>readline\<close> returns: end of file; a line that does not parse; a line that
  parses to the given JSON value but is not an encrypted frame of this session; a line
  whose \<^verbatim>\<open>payload\<close> decrypts under the session's channel to the given inner envelope.
\<close>

datatype line = EOF | Unparsable | PlainLine json | SealedLine json

definition handshake_start :: "server \<Rightarrow> json" where
  "handshake_start st =
     JObj [(''type'', JStr ''handshake_start''),
           (''payload'', JObj [(''public_key'', JStr (public_key_pem st))])]"

text \<open>The \<^verbatim>\<open>finally\<close> clause.\<close>

definition teardown :: "nat \<Rightarrow> server \<Rightarrow> server" where
  "teardown i st =
     (let s = sessions st ! i;
          reg = (case user_id s of
                   Some uid \<Rightarrow> if is_authenticated s \<and> uid \<noteq> [] then unregister_user uid (registry st)
                              else registry st
                 | None \<Rightarrow> registry st)
      in st\<lparr>sessions := (sessions st)[i := s\<lparr>phase := CLOSED\<rparr>], registry := reg\<rparr>)"

text \<open>The body of the encrypted loop, after the line was decrypted and parsed.\<close>

definition dispatch :: "env \<Rightarrow> nat \<Rightarrow> json \<Rightarrow> server \<Rightarrow> outcome" where
  "dispatch E i envelope st =
     (if \<not> is_authenticated (sessions st ! i) then
        (case py_get envelope ''type'' of
           Inl e \<Rightarrow> (st, Some e)
         | Inr msg_type \<Rightarrow>
             (if msg_type = Some (JStr ''login'') then perform_login E i envelope st
              else if msg_type = Some (JStr ''signup'') then perform_signup E i envelope st
              else send_json i (error_response ''Not authenticated. Send 'login' or 'signup'.'') st))
      else process_message E i envelope st)"

text \<open>A new connection: the session object is created and the public key is sent.\<close>

definition accept :: "server \<Rightarrow> server" where
  "accept st =
     st\<lparr>sessions := sessions st @
          [\<lparr>user_id = None, full_name = None, email = None, is_authenticated = False,
            secure_channel = None, phase = AWAIT_KEY,
            written = [Plain (handshake_start st)]\<rparr>]\<rparr>"

text \<open>
  One line arrives at session \<open>i\<close>. A session that finished reads nothing more. An
  escaping exception and the end of the stream both lead to the \<^verbatim>\<open>finally\<close> clause.
\<close>

definition recv :: "env \<Rightarrow> nat \<Rightarrow> line \<Rightarrow> server \<Rightarrow> server" where
  "recv E i l st =
     (if i < length (sessions st) then
        (case phase (sessions st ! i) of
           CLOSED \<Rightarrow> st
         | AWAIT_KEY \<Rightarrow>
             (case l of
                PlainLine envelope \<Rightarrow>
                  (case py_get envelope ''type'' of
                     Inl e \<Rightarrow> teardown i st
                   | Inr t \<Rightarrow>
                       (if t \<noteq> Some (JStr ''key_exchange'') then teardown i st
                        else (case handle_key_exchange E i envelope st of
                                (st', True) \<Rightarrow>
                                  st'\<lparr>sessions := (sessions st')[i := (sessions st' ! i)\<lparr>phase := ESTABLISHED\<rparr>]\<rparr>
                              | (st', False) \<Rightarrow> teardown i st')))
              | _ \<Rightarrow> teardown i st)
         | ESTABLISHED \<Rightarrow>
             (case l of
                SealedLine envelope \<Rightarrow>
                  (case dispatch E i envelope st of
                     (st', None) \<Rightarrow> st'
                   | (st', Some e) \<Rightarrow> teardown i st')
              | _ \<Rightarrow> teardown i st))
      else st)"

datatype event = Accept | Recv nat line

fun step :: "env \<Rightarrow> server \<Rightarrow> event \<Rightarrow> server" where
  "step E st Accept = accept st"
| "step E st (Recv i l) = recv E i l st"

definition run :: "env \<Rightarrow> server \<Rightarrow> event list \<Rightarrow> server" where
  "run E st evs = foldl (step E) st evs"

definition init :: "string \<Rightarrow> server" where
  "init pem = \<lparr>public_key_pem = pem, sessions = [], registry = [], users = [], messages = []\<rparr>"

text \<open>The four states of the specification's session state machine.\<close>

datatype session_state = HANDSHAKE | UNAUTH | AUTH | CLOSED_STATE

definition state_of :: "session \<Rightarrow> session_state" where
  "state_of s =
     (case phase s of
        AWAIT_KEY \<Rightarrow> HANDSHAKE
      | CLOSED \<Rightarrow> CLOSED_STATE
      | ESTABLISHED \<Rightarrow> (if is_authenticated s then AUTH else UNAUTH))"

section \<open>A worked scenario\<close>

text \<open>
  An environment with simple stand-ins for the library functions, and lines a client
  may send. The examples below run the server on them. Its bcrypt refuses a password
  whose UTF-8 encoding has more than 72 bytes, as the current releases of the library
  do; a character below 128 is one byte, any other character of the model is two.
\<close>

definition utf8_length :: "string \<Rightarrow> nat" where
  "utf8_length s = sum_list (map (\<lambda>c. if (of_char c :: nat) < 128 then 1 else 2) s)"

definition demo_env :: env where
  "demo_env =
     \<lparr>uuid5 = (\<lambda>ns name. ''id-'' @ name),
      hashpw = (\<lambda>pw. if 72 < utf8_length pw then Inl ValueError else Inr (''h-'' @ pw)),
      checkpw = (\<lambda>pw h. if 72 < utf8_length pw then Inl ValueError else Inr (h = ''h-'' @ pw)),
      b64decode = (\<lambda>s. Some (map of_char s)),
      rsa_decrypt = (\<lambda>c. Some c),
      bind_text = (\<lambda>v. case v of JStr s \<Rightarrow> Inr (Some s) | JNull \<Rightarrow> Inr None
                          | _ \<Rightarrow> Inl DriverError),
      py_str = (\<lambda>v. ''?'')\<rparr>"

definition key_exchange_line :: "string \<Rightarrow> line" where
  "key_exchange_line k =
     PlainLine (JObj [(''type'', JStr ''key_exchange''), (''payload'', JObj [(''key'', JStr k)])])"

definition signup_line :: "string \<Rightarrow> string \<Rightarrow> string \<Rightarrow> line" where
  "signup_line n e p =
     SealedLine (JObj [(''type'', JStr ''signup''),
       (''payload'', JObj [(''full_name'', JStr n), (''email'', JStr e), (''password'', JStr p)])])"

definition login_line :: "string \<Rightarrow> string \<Rightarrow> line" where
  "login_line e p =
     SealedLine (JObj [(''type'', JStr ''login''),
       (''payload'', JObj [(''email'', JStr e), (''password'', JStr p)])])"

definition demo_key :: string where
  "demo_key = ''0123456789abcdef0123456789abcdef''"

text \<open>Two clients connect, complete the handshake, sign up and log in.\<close>

definition two_online :: server where
  "two_online =
     run demo_env (init ''PEM'')
       [Accept, Accept,
        Recv 0 (key_exchange_line demo_key), Recv 1 (key_exchange_line demo_key),
        Recv 0 (signup_line ''Alice'' ''a@x'' ''p1''), Recv 1 (signup_line ''Bob'' ''b@x'' ''p2''),
        Recv 0 (login_line '' A@x '' ''p1''), Recv 1 (login_line ''b@x'' ''p2'')]"

text \<open>A chat from Alice to Bob whose payload also names Bob as the sender.\<close>

definition spoofed_chat :: json where
  "spoofed_chat =
     JObj [(''type'', JStr ''chat''),
           (''payload'', JObj [(''recipient_id'', JStr ''id-b@x''), (''text'', JStr ''hi''),
                               (''sender_id'', JStr ''id-b@x''), (''sender_name'', JStr ''Bob'')])]"

section \<open>Vocabulary of the properties\<close>

text \<open>A session without its output, for statements that do not depend on what was sent.\<close>

definition silent :: "session \<Rightarrow> session" where
  "silent s = s\<lparr>written := []\<rparr>"

text \<open>What a successful login does to everything but the output.\<close>

definition logged_in :: "nat \<Rightarrow> user_row \<Rightarrow> server \<Rightarrow> server \<Rightarrow> bool" where
  "logged_in i row st st' =
     (row \<in> set (users st) \<and>
      registry st' = register_user (u_id row) i (registry st) \<and>
      map silent (sessions st') =
        (map silent (sessions st))[i := silent ((sessions st ! i)
           \<lparr>user_id := Some (u_id row), full_name := u_full_name row,
            email := Some (u_email row), is_authenticated := True\<rparr>)])"

text \<open>
  The registry and the sessions fit together: the registry has one entry per key, every
  entry leads to an authenticated, open session that carries the entry's user id, an
  authenticated session has a non-empty user id, a session inside the encrypted loop
  has a channel, and no stored user has an empty id.
\<close>

definition consistent_parts :: "(string \<times> nat) list \<Rightarrow> session list \<Rightarrow> user_row list \<Rightarrow> bool" where
  "consistent_parts reg ss us =
     (distinct (map fst reg) \<and>
      (\<forall>u h. map_of reg u = Some h \<longrightarrow>
         h < length ss \<and> state_of (ss ! h) = AUTH \<and> user_id (ss ! h) = Some u) \<and>
      (\<forall>s \<in> set ss. is_authenticated s \<longrightarrow> (\<exists>u. user_id s = Some u \<and> u \<noteq> [])) \<and>
      (\<forall>s \<in> set ss. phase s = ESTABLISHED \<longrightarrow> secure_channel s \<noteq> None) \<and>
      (\<forall>r \<in> set us. u_id r \<noteq> []))"

definition consistent :: "server \<Rightarrow> bool" where
  "consistent st = consistent_parts (registry st) (sessions st) (users st)"

text \<open>The registry after the \<^verbatim>\<open>finally\<close> clause of the given session.\<close>

definition closing_registry :: "session \<Rightarrow> (string \<times> nat) list \<Rightarrow> (string \<times> nat) list" where
  "closing_registry s reg =
     (case user_id s of
        Some uid \<Rightarrow> if is_authenticated s \<and> uid \<noteq> [] then unregister_user uid reg else reg
      | None \<Rightarrow> reg)"

text \<open>\<^verbatim>\<open>str(uuid.uuid5(...))\<close> is never the empty string.\<close>

definition uuid_nonempty :: "env \<Rightarrow> bool" where
  "uuid_nonempty E = (\<forall>ns name. uuid5 E ns name \<noteq> [])"

text \<open>The sessions whose state is AUTH.\<close>

definition auth_sessions :: "server \<Rightarrow> session list" where
  "auth_sessions st = filter (\<lambda>s. state_of s = AUTH) (sessions st)"

text \<open>Two clients connect and both log in to the same account.\<close>

definition same_user_twice :: server where
  "same_user_twice =
     run demo_env (init ''PEM'')
       [Accept, Accept,
        Recv 0 (key_exchange_line demo_key), Recv 1 (key_exchange_line demo_key),
        Recv 0 (signup_line ''Alice'' ''a@x'' ''p1''),
        Recv 0 (login_line ''a@x'' ''p1''), Recv 1 (login_line ''a@x'' ''p1'')]"

text \<open>One client connects; then it completes the handshake.\<close>

definition connected :: server where
  "connected = run demo_env (init ''PEM'') [Accept]"

definition handshaken :: server where
  "handshaken = run demo_env (init ''PEM'') [Accept, Recv 0 (key_exchange_line demo_key)]"

text \<open>The envelope a client sends when its window is closed.\<close>

definition logout_envelope :: json where
  "logout_envelope = JObj [(''type'', JStr ''logout''), (''payload'', JObj [])]"

text \<open>A chat from Alice to a user who is not connected.\<close>

definition offline_chat :: json where
  "offline_chat =
     JObj [(''type'', JStr ''chat''),
           (''payload'', JObj [(''recipient_id'', JStr ''id-c@x''), (''text'', JStr ''later'')])]"

text \<open>
  Alice logs in on two connections, Bob on a third; the second login of Alice
  overwrote the registry entry of the first.
\<close>

definition evicted :: server where
  "evicted =
     run demo_env (init ''PEM'')
       [Accept, Accept, Accept,
        Recv 0 (key_exchange_line demo_key), Recv 1 (key_exchange_line demo_key),
        Recv 2 (key_exchange_line demo_key),
        Recv 0 (signup_line ''Alice'' ''a@x'' ''p1''), Recv 2 (signup_line ''Bob'' ''b@x'' ''p2''),
        Recv 0 (login_line ''a@x'' ''p1''), Recv 1 (login_line ''a@x'' ''p1''),
        Recv 2 (login_line ''b@x'' ''p2'')]"

text \<open>A chat addressed to Alice.\<close>

definition chat_to_alice :: json where
  "chat_to_alice =
     JObj [(''type'', JStr ''chat''),
           (''payload'', JObj [(''recipient_id'', JStr ''id-a@x''), (''text'', JStr ''hello'')])]"

text \<open>What an evaluated scenario is compared on: everything but the written frames.\<close>

definition summary :: "server \<Rightarrow> (string \<times> nat) list \<times> session list \<times> msg_row list" where
  "summary st = (registry st, map silent (sessions st), messages st)"





section \<open>Properties\<close>

subsection \<open>Email normalisation\<close>

lemma of_char_shift: "n \<le> 222 \<Longrightarrow> (of_char (char_of (n + 32 :: nat)) :: nat) = n + 32"
  by (simp add: of_char_of)

lemma isspace_lower: "py_isspace (py_lower_char c) = py_isspace c"
  unfolding py_isspace_def py_lower_char_def Let_def
  by (auto simp: of_char_shift simp del: of_char_of)

lemma lower_char_idem: "py_lower_char (py_lower_char c) = py_lower_char c"
  unfolding py_lower_char_def Let_def
  by (auto simp: of_char_shift simp del: of_char_of)

lemma lower_idem: "py_lower (py_lower s) = py_lower s"
  by (simp add: py_lower_def lower_char_idem)

lemma strip_lower: "py_strip (py_lower s) = py_lower (py_strip s)"
  unfolding py_strip_def py_lower_def
  by (simp add: dropWhile_map rev_map comp_def isspace_lower)

lemma dropWhile_noop: "xs = [] \<or> \<not> P (hd xs) \<Longrightarrow> dropWhile P xs = xs"
  by (cases xs) auto

lemma strip_idem: "py_strip (py_strip s) = py_strip s"
proof -
  define a where "a = dropWhile py_isspace s"
  define b where "b = dropWhile py_isspace (rev a)"
  have a: "a = [] \<or> \<not> py_isspace (hd a)"
    unfolding a_def using hd_dropWhile [of py_isspace s] by blast
  have t: "rev b = take (length a - length (takeWhile py_isspace (rev a))) a"
    unfolding b_def by (simp add: dropWhile_eq_drop rev_drop)
  then have "rev b = [] \<or> hd (rev b) = hd a"
    by (metis hd_take take_eq_Nil not_gr_zero)
  then have "rev b = [] \<or> \<not> py_isspace (hd (rev b))"
    using a t by (metis take_Nil)
  then have 1: "dropWhile py_isspace (rev b) = rev b"
    by (rule dropWhile_noop)
  have 2: "dropWhile py_isspace b = b"
    unfolding b_def by simp
  show ?thesis
    using 1 2 unfolding py_strip_def a_def [symmetric] b_def [symmetric] by simp
qed

text \<open>
  Claim C10. The user id derived from an email equals the id derived from the
  normalised email (lowercase plus trim), and it is the UUIDv5 of the normalised email
  in the DNS namespace. The code trims before it lowercases; both orders agree.
\<close>

theorem generate_user_id_normalized:
  "generate_user_id E e = generate_user_id E (normalize e) \<and>
   generate_user_id E e = uuid5 E NAMESPACE_DNS (normalize e)"
  by (simp add: generate_user_id_def normalize_def strip_lower strip_idem lower_idem)

subsection \<open>The worked scenario, evaluated\<close>

lemma two_online_value:
  "two_online =
     \<lparr>public_key_pem = ''PEM'',
      sessions =
        [\<lparr>user_id = Some ''id-a@x'', full_name = Some ''Alice'', email = Some ''a@x'',
           is_authenticated = True,
           secure_channel = Some (map of_char demo_key), phase = ESTABLISHED,
           written =
             [Plain (handshake_start (init ''PEM'')), Sealed handshake_complete, Sealed signup_ok,
              Sealed (response [(''status'', JStr ''ok''),
                (''message'', JStr ''Login successful. Welcome, Alice!''),
                (''user_info'', JObj [(''id'', JStr ''id-a@x''), (''full_name'', JStr ''Alice''),
                                      (''email'', JStr ''a@x'')])])]\<rparr>,
         \<lparr>user_id = Some ''id-b@x'', full_name = Some ''Bob'', email = Some ''b@x'',
           is_authenticated = True,
           secure_channel = Some (map of_char demo_key), phase = ESTABLISHED,
           written =
             [Plain (handshake_start (init ''PEM'')), Sealed handshake_complete, Sealed signup_ok,
              Sealed (response [(''status'', JStr ''ok''),
                (''message'', JStr ''Login successful. Welcome, Bob!''),
                (''user_info'', JObj [(''id'', JStr ''id-b@x''), (''full_name'', JStr ''Bob''),
                                      (''email'', JStr ''b@x'')])])]\<rparr>],
      registry = [(''id-a@x'', 0), (''id-b@x'', 1)],
      users =
        [\<lparr>u_id = ''id-a@x'', u_full_name = Some ''Alice'', u_email = ''a@x'',
           u_password = ''h-p1''\<rparr>,
         \<lparr>u_id = ''id-b@x'', u_full_name = Some ''Bob'', u_email = ''b@x'',
           u_password = ''h-p2''\<rparr>],
      messages = []\<rparr>"
  by code_simp

subsection \<open>Routing\<close>

text \<open>
  Claim C1. When the router delivers a chat to an online recipient, the
  \<^verbatim>\<open>sender_id\<close> and \<^verbatim>\<open>sender_name\<close> of the \<^verbatim>\<open>new_message\<close> envelope are the
  \<^verbatim>\<open>user_id\<close> and \<^verbatim>\<open>full_name\<close> of the sending session. The envelope is arbitrary apart
  from the two fields the router reads, so whatever else the payload carries, a sender
  identifier included, has no effect.
\<close>

theorem delivered_sender_is_session_identity:
  assumes "py_getitem envelope ''payload'' = Inr payload"
    and "py_getitem payload ''recipient_id'' = Inr recipient_id"
    and "py_getitem payload ''text'' = Inr message_text"
    and "get_session_by_id recipient_id (registry st) = Inr (Some r)"
    and "r < length (sessions st)"
    and "secure_channel (sessions st ! r) \<noteq> None"
    and "phase (sessions st ! r) \<noteq> CLOSED"
  shows "route_chat_message E i envelope st =
           (st\<lparr>sessions := (sessions st)[r := (sessions st ! r)
                  \<lparr>written := written (sessions st ! r) @
                     [Sealed (JObj [(''type'', JStr ''new_message''),
                        (''payload'', JObj [(''sender_id'', opt_str (user_id (sessions st ! i))),
                                            (''sender_name'', opt_str (full_name (sessions st ! i))),
                                            (''text'', message_text)])])]\<rparr>]\<rparr>, None)"
  using assms
  by (auto simp: route_chat_message_def route_try_def send_json_def delivery_envelope_def Let_def)

theorem delivered_sender_is_session_identity_witness:
  "written (sessions (fst (route_chat_message demo_env 0 spoofed_chat two_online)) ! 1) =
     written (sessions two_online ! 1) @
       [Sealed (JObj [(''type'', JStr ''new_message''),
          (''payload'', JObj [(''sender_id'', JStr ''id-a@x''),
                              (''sender_name'', JStr ''Alice''),
                              (''text'', JStr ''hi'')])])]"
proof -
  have 1: "py_getitem spoofed_chat ''payload'' =
             Inr (JObj [(''recipient_id'', JStr ''id-b@x''), (''text'', JStr ''hi''),
                        (''sender_id'', JStr ''id-b@x''), (''sender_name'', JStr ''Bob'')])"
    by (simp add: spoofed_chat_def)
  have 2: "py_getitem (JObj [(''recipient_id'', JStr ''id-b@x''), (''text'', JStr ''hi''),
                        (''sender_id'', JStr ''id-b@x''), (''sender_name'', JStr ''Bob'')])
             ''recipient_id'' = Inr (JStr ''id-b@x'')"
    by simp
  have 3: "py_getitem (JObj [(''recipient_id'', JStr ''id-b@x''), (''text'', JStr ''hi''),
                        (''sender_id'', JStr ''id-b@x''), (''sender_name'', JStr ''Bob'')])
             ''text'' = Inr (JStr ''hi'')"
    by simp
  have 4: "get_session_by_id (JStr ''id-b@x'') (registry two_online) = Inr (Some 1)"
    by (simp add: two_online_value)
  have 5: "1 < length (sessions two_online)"
    by (simp add: two_online_value)
  have 6: "secure_channel (sessions two_online ! 1) \<noteq> None"
    by (simp add: two_online_value)
  have 7: "phase (sessions two_online ! 1) \<noteq> CLOSED"
    by (simp add: two_online_value)
  show ?thesis
    using delivered_sender_is_session_identity [OF 1 2 3 4 5 6 7, of demo_env 0]
    by (simp add: two_online_value opt_str_def)
qed

subsection \<open>Dispatch before authentication\<close>

text \<open>
  Claim C7. A session that completed the handshake and is not authenticated answers
  an inner envelope whose type is neither \<^verbatim>\<open>login\<close> nor \<^verbatim>\<open>signup\<close> (or is missing) with
  the "Not authenticated" error response. Nothing else changes: the session stays
  unauthenticated and open, and the registry is as before.
\<close>

theorem unauth_rejects_other_types:
  assumes "i < length (sessions st)"
    and "phase (sessions st ! i) = ESTABLISHED"
    and "\<not> is_authenticated (sessions st ! i)"
    and "secure_channel (sessions st ! i) \<noteq> None"
    and "map_of kvs ''type'' \<noteq> Some (JStr ''login'')"
    and "map_of kvs ''type'' \<noteq> Some (JStr ''signup'')"
  shows "recv E i (SealedLine (JObj kvs)) st =
           st\<lparr>sessions := (sessions st)[i := (sessions st ! i)
                  \<lparr>written := written (sessions st ! i) @
                     [Sealed (JObj [(''type'', JStr ''response''),
                        (''payload'', JObj [(''status'', JStr ''error''),
                           (''message'', JStr ''Not authenticated. Send 'login' or 'signup'.'')])])]\<rparr>]\<rparr>
         \<and> state_of (sessions (recv E i (SealedLine (JObj kvs)) st) ! i) = UNAUTH
         \<and> registry (recv E i (SealedLine (JObj kvs)) st) = registry st"
  using assms
  by (auto simp: recv_def dispatch_def send_json_def error_response_def response_def Let_def
      state_of_def)

subsection \<open>Handshake\<close>

lemma map_update_same: "i < length xs \<Longrightarrow> (map f xs)[i := f (xs ! i)] = map f xs"
  by (simp add: list_eq_iff_nth_eq nth_list_update)

text \<open>
  Claim C9. When the \<^verbatim>\<open>key_exchange\<close> payload decrypts to a key that is not 32 bytes
  long, the handshake fails: the session is closed, no secure channel is set and no
  frame is written to any connection.
\<close>

theorem short_key_closes_session:
  assumes "i < length (sessions st)"
    and "phase (sessions st ! i) = AWAIT_KEY"
    and "py_get envelope ''type'' = Inr (Some (JStr ''key_exchange''))"
    and "py_getitem envelope ''payload'' = Inr payload"
    and "py_getitem payload ''key'' = Inr (JStr key_b64)"
    and "b64decode E key_b64 = Some encrypted_key"
    and "rsa_decrypt E encrypted_key = Some aes_key"
    and "length aes_key \<noteq> 32"
  shows "sessions (recv E i (PlainLine envelope) st) =
           (sessions st)[i := (sessions st ! i)\<lparr>phase := CLOSED\<rparr>]
         \<and> state_of (sessions (recv E i (PlainLine envelope) st) ! i) = CLOSED_STATE
         \<and> map written (sessions (recv E i (PlainLine envelope) st)) = map written (sessions st)
         \<and> secure_channel (sessions (recv E i (PlainLine envelope) st) ! i) =
             secure_channel (sessions st ! i)"
  using assms
  by (auto simp: recv_def handle_key_exchange_def SecureChannel_def teardown_def Let_def
      state_of_def map_update map_update_same split: option.splits)

subsection \<open>What each operation leaves unchanged\<close>

lemma silent_simps [simp]:
  "user_id (silent s) = user_id s" "full_name (silent s) = full_name s"
  "email (silent s) = email s" "is_authenticated (silent s) = is_authenticated s"
  "secure_channel (silent s) = secure_channel s" "phase (silent s) = phase s"
  "silent (s\<lparr>written := w\<rparr>) = silent s"
  by (simp_all add: silent_def)

lemma map_silent_update:
  "i < length xs \<Longrightarrow> silent s = silent (xs ! i) \<Longrightarrow> map silent (xs[i := s]) = map silent xs"
  by (simp add: map_update list_eq_iff_nth_eq nth_list_update)

lemma send_json_frame:
  "send_json i d st = (st', e) \<Longrightarrow>
     registry st' = registry st \<and> users st' = users st \<and> messages st' = messages st \<and>
     map silent (sessions st') = map silent (sessions st)"
  by (auto simp: send_json_def Let_def map_silent_update split: if_splits)

lemma add_user_frame:
  "add_user E n em pw st = (st', r) \<Longrightarrow>
     registry st' = registry st \<and> messages st' = messages st \<and> sessions st' = sessions st \<and>
     (\<forall>row \<in> set (users st'). row \<in> set (users st) \<or> u_id row = generate_user_id E em)"
  by (auto simp: add_user_def Let_def split: sum.splits if_splits)

lemma signup_try_frame:
  "signup_try E i envelope st = (st', e) \<Longrightarrow>
     registry st' = registry st \<and> messages st' = messages st \<and>
     map silent (sessions st') = map silent (sessions st) \<and>
     (\<forall>row \<in> set (users st'). row \<in> set (users st) \<or> (\<exists>em. u_id row = generate_user_id E em))"
  unfolding signup_try_def
  apply (simp add: Let_def split: sum.splits if_splits json.splits prod.splits)
  apply (auto dest!: send_json_frame add_user_frame)
  done

lemma perform_signup_frame:
  "perform_signup E i envelope st = (st', e) \<Longrightarrow>
     registry st' = registry st \<and> messages st' = messages st \<and>
     map silent (sessions st') = map silent (sessions st) \<and>
     (\<forall>row \<in> set (users st'). row \<in> set (users st) \<or> (\<exists>em. u_id row = generate_user_id E em))"
  unfolding perform_signup_def
  apply (simp split: prod.splits option.splits if_splits)
  apply (auto dest!: send_json_frame signup_try_frame)
  done

lemma store_message_frame:
  "store_message E sid rid t st = Inr st' \<Longrightarrow>
     registry st' = registry st \<and> users st' = users st \<and> sessions st' = sessions st"
  by (auto simp: store_message_def split: json.splits option.splits sum.splits)

lemma route_try_frame:
  "route_try E i envelope st = (st', e) \<Longrightarrow>
     registry st' = registry st \<and> users st' = users st \<and>
     map silent (sessions st') = map silent (sessions st)"
  unfolding route_try_def
  apply (simp add: Let_def split: sum.splits option.splits)
  apply (auto dest!: send_json_frame store_message_frame)
  done

lemma route_chat_message_frame:
  "route_chat_message E i envelope st = (st', e) \<Longrightarrow>
     registry st' = registry st \<and> users st' = users st \<and>
     map silent (sessions st') = map silent (sessions st)"
  unfolding route_chat_message_def
  apply (simp split: prod.splits option.splits if_splits)
  apply (auto dest!: send_json_frame route_try_frame)
  done

lemma process_message_frame:
  "process_message E i envelope st = (st', e) \<Longrightarrow>
     registry st' = registry st \<and> users st' = users st \<and>
     map silent (sessions st') = map silent (sessions st)"
  unfolding process_message_def
  apply (simp split: sum.splits if_splits)
  apply (auto dest!: send_json_frame route_chat_message_frame)
  done

lemma authenticate_row: "authenticate E em pw st = Inr (Some row) \<Longrightarrow> row \<in> set (users st)"
  by (auto simp: authenticate_def get_user_by_email_def Let_def find_Some_iff
      split: option.splits sum.splits bool.splits)

lemma login_try_frame:
  "login_try E i envelope st = (st', e) \<Longrightarrow>
     users st' = users st \<and>
     ((registry st' = registry st \<and> map silent (sessions st') = map silent (sessions st)) \<or>
      (\<exists>row. logged_in i row st st'))"
  unfolding login_try_def
  apply (simp add: Let_def split: sum.splits option.splits json.splits)
  apply (auto dest!: send_json_frame authenticate_row simp: logged_in_def map_update)
  done

lemma state_of_silent [simp]: "state_of (silent s) = state_of s"
  by (simp add: state_of_def)

lemma consistent_parts_silent:
  "consistent_parts reg (map silent ss) us = consistent_parts reg ss us"
  unfolding consistent_parts_def
  by (simp cong: conj_cong)

lemma consistent_frame:
  assumes "consistent st"
    and "registry st' = registry st"
    and "map silent (sessions st') = map silent (sessions st)"
    and "\<forall>r \<in> set (users st'). r \<in> set (users st) \<or> u_id r \<noteq> []"
  shows "consistent st'"
proof -
  have "consistent_parts (registry st) (map silent (sessions st)) (users st)"
    using assms(1) by (simp add: consistent_def consistent_parts_silent)
  then have "consistent_parts (registry st') (map silent (sessions st')) (users st')"
    using assms(2-4) unfolding consistent_parts_def by (simp cong: conj_cong) blast
  then show ?thesis
    by (simp add: consistent_def consistent_parts_silent)
qed

lemma unregister_absent: "map_of (unregister_user uid reg) uid = None"
proof (cases "uid \<in> fst ` set reg")
  case True
  then show ?thesis by (simp add: unregister_user_def delete_conv)
next
  case False
  then show ?thesis by (simp add: unregister_user_def map_of_eq_None_iff)
qed

lemma unregister_other: "u \<noteq> uid \<Longrightarrow> map_of (unregister_user uid reg) u = map_of reg u"
  by (simp add: unregister_user_def delete_conv)

lemma unregister_distinct: "distinct (map fst reg) \<Longrightarrow> distinct (map fst (unregister_user uid reg))"
  by (simp add: unregister_user_def distinct_delete)

lemma map_of_unregister:
  "map_of (unregister_user uid reg) u = (if u = uid then None else map_of reg u)"
  by (simp add: unregister_absent unregister_other)

lemma map_of_register:
  "map_of (register_user uid h reg) u = (if u = uid then Some h else map_of reg u)"
  by (simp add: register_user_def update_conv')

lemma register_distinct: "distinct (map fst reg) \<Longrightarrow> distinct (map fst (register_user uid h reg))"
  by (simp add: register_user_def distinct_update)

lemma parts_teardown:
  assumes "consistent_parts reg ss us" and "i < length ss"
  shows "consistent_parts (closing_registry (ss ! i) reg) (ss[i := (ss ! i)\<lparr>phase := CLOSED\<rparr>]) us"
proof -
  have auth: "is_authenticated (ss ! i) \<Longrightarrow> \<exists>u. user_id (ss ! i) = Some u \<and> u \<noteq> []"
    using assms by (auto simp: consistent_parts_def)
  have entry: "\<And>u h. map_of reg u = Some h \<Longrightarrow>
                 h < length ss \<and> state_of (ss ! h) = AUTH \<and> user_id (ss ! h) = Some u"
    using assms(1) by (simp add: consistent_parts_def)
  have not_i: "map_of (closing_registry (ss ! i) reg) u \<noteq> Some i" for u
  proof
    assume a: "map_of (closing_registry (ss ! i) reg) u = Some i"
    then have "map_of reg u = Some i"
      by (auto simp: closing_registry_def map_of_unregister split: option.splits if_splits)
    then have "state_of (ss ! i) = AUTH" "user_id (ss ! i) = Some u"
      using entry by auto
    then have "is_authenticated (ss ! i)" "u \<noteq> []"
      using auth by (auto simp: state_of_def split: phase.splits if_splits)
    with \<open>user_id (ss ! i) = Some u\<close> have "closing_registry (ss ! i) reg = unregister_user u reg"
      by (simp add: closing_registry_def)
    with a show False
      by (simp add: map_of_unregister)
  qed
  have sub: "map_of (closing_registry (ss ! i) reg) u = Some h \<Longrightarrow> map_of reg u = Some h" for u h
    by (auto simp: closing_registry_def map_of_unregister split: option.splits if_splits)
  have 1: "distinct (map fst (closing_registry (ss ! i) reg))"
    using assms(1)
    by (auto simp: closing_registry_def consistent_parts_def unregister_distinct split: option.splits)
  have 2: "\<forall>u h. map_of (closing_registry (ss ! i) reg) u = Some h \<longrightarrow>
             h < length (ss[i := (ss ! i)\<lparr>phase := CLOSED\<rparr>]) \<and>
             state_of (ss[i := (ss ! i)\<lparr>phase := CLOSED\<rparr>] ! h) = AUTH \<and>
             user_id (ss[i := (ss ! i)\<lparr>phase := CLOSED\<rparr>] ! h) = Some u"
  proof (intro allI impI)
    fix u h assume a: "map_of (closing_registry (ss ! i) reg) u = Some h"
    then have "h \<noteq> i" using not_i by blast
    with entry [OF sub [OF a]] show "h < length (ss[i := (ss ! i)\<lparr>phase := CLOSED\<rparr>]) \<and>
             state_of (ss[i := (ss ! i)\<lparr>phase := CLOSED\<rparr>] ! h) = AUTH \<and>
             user_id (ss[i := (ss ! i)\<lparr>phase := CLOSED\<rparr>] ! h) = Some u"
      by simp
  qed
  have 3: "\<forall>s \<in> set (ss[i := (ss ! i)\<lparr>phase := CLOSED\<rparr>]).
             (is_authenticated s \<longrightarrow> (\<exists>u. user_id s = Some u \<and> u \<noteq> [])) \<and>
             (phase s = ESTABLISHED \<longrightarrow> secure_channel s \<noteq> None)"
  proof
    fix s assume "s \<in> set (ss[i := (ss ! i)\<lparr>phase := CLOSED\<rparr>])"
    then have "s = (ss ! i)\<lparr>phase := CLOSED\<rparr> \<or> s \<in> set ss"
      using set_update_subset_insert [of ss i] by auto
    then show "(is_authenticated s \<longrightarrow> (\<exists>u. user_id s = Some u \<and> u \<noteq> [])) \<and>
             (phase s = ESTABLISHED \<longrightarrow> secure_channel s \<noteq> None)"
      using assms(1) auth by (auto simp: consistent_parts_def)
  qed
  show ?thesis
    using 1 2 3 assms(1) unfolding consistent_parts_def by blast
qed

lemma consistent_teardown:
  assumes "consistent st" and "i < length (sessions st)"
  shows "consistent (teardown i st)"
proof -
  have "registry (teardown i st) = closing_registry (sessions st ! i) (registry st)"
    by (simp add: teardown_def closing_registry_def Let_def)
  moreover have "sessions (teardown i st) = (sessions st)[i := (sessions st ! i)\<lparr>phase := CLOSED\<rparr>]"
    by (simp add: teardown_def Let_def)
  moreover have "users (teardown i st) = users st"
    by (simp add: teardown_def Let_def)
  ultimately show ?thesis
    using parts_teardown [of "registry st" "sessions st" "users st" i] assms
    by (simp add: consistent_def)
qed

lemma parts_login:
  assumes "consistent_parts reg ss us" and "i < length ss"
    and "phase (ss ! i) = ESTABLISHED" and "\<not> is_authenticated (ss ! i)"
    and "row \<in> set us"
    and s': "user_id s' = Some (u_id row)" "is_authenticated s'" "phase s' = phase (ss ! i)"
        "secure_channel s' = secure_channel (ss ! i)"
  shows "consistent_parts (register_user (u_id row) i reg) (ss[i := s']) us"
proof -
  have entry: "\<And>u h. map_of reg u = Some h \<Longrightarrow>
                 h < length ss \<and> state_of (ss ! h) = AUTH \<and> user_id (ss ! h) = Some u"
    using assms(1) by (simp add: consistent_parts_def)
  have id: "u_id row \<noteq> []"
    using assms(1,5) by (simp add: consistent_parts_def)
  have chan: "secure_channel (ss ! i) \<noteq> None"
    using assms(1,2,3) by (auto simp: consistent_parts_def)
  have 1: "distinct (map fst (register_user (u_id row) i reg))"
    using assms(1) by (simp add: consistent_parts_def register_distinct)
  have 2: "\<forall>u h. map_of (register_user (u_id row) i reg) u = Some h \<longrightarrow>
             h < length (ss[i := s']) \<and> state_of (ss[i := s'] ! h) = AUTH \<and>
             user_id (ss[i := s'] ! h) = Some u"
  proof (intro allI impI)
    fix u h assume a: "map_of (register_user (u_id row) i reg) u = Some h"
    show "h < length (ss[i := s']) \<and> state_of (ss[i := s'] ! h) = AUTH \<and>
             user_id (ss[i := s'] ! h) = Some u"
    proof (cases "u = u_id row")
      case True
      with a have "h = i" by (simp add: map_of_register)
      with True assms show ?thesis by (simp add: state_of_def)
    next
      case False
      with a have old: "map_of reg u = Some h" by (simp add: map_of_register)
      from entry [OF old] assms(4) have "h \<noteq> i"
        by (auto simp: state_of_def split: phase.splits if_splits)
      with entry [OF old] show ?thesis by simp
    qed
  qed
  have 3: "\<forall>s \<in> set (ss[i := s']).
             (is_authenticated s \<longrightarrow> (\<exists>u. user_id s = Some u \<and> u \<noteq> [])) \<and>
             (phase s = ESTABLISHED \<longrightarrow> secure_channel s \<noteq> None)"
  proof
    fix s assume "s \<in> set (ss[i := s'])"
    then have "s = s' \<or> s \<in> set ss"
      using set_update_subset_insert [of ss i] by auto
    then show "(is_authenticated s \<longrightarrow> (\<exists>u. user_id s = Some u \<and> u \<noteq> [])) \<and>
             (phase s = ESTABLISHED \<longrightarrow> secure_channel s \<noteq> None)"
      using assms(1) id chan s' by (auto simp: consistent_parts_def)
  qed
  show ?thesis
    using 1 2 3 assms(1) unfolding consistent_parts_def by blast
qed

lemma consistent_logged_in:
  assumes "consistent st" and "i < length (sessions st)"
    and "phase (sessions st ! i) = ESTABLISHED" and "\<not> is_authenticated (sessions st ! i)"
    and "logged_in i row st st'" and "users st' = users st"
  shows "consistent st'"
proof -
  let ?ss = "map silent (sessions st)"
  let ?s' = "silent ((sessions st ! i)
           \<lparr>user_id := Some (u_id row), full_name := u_full_name row,
            email := Some (u_email row), is_authenticated := True\<rparr>)"
  have "consistent_parts (registry st) ?ss (users st)"
    using assms(1) by (simp add: consistent_def consistent_parts_silent)
  then have "consistent_parts (register_user (u_id row) i (registry st)) (?ss[i := ?s']) (users st)"
    using assms(2-5) by (intro parts_login) (simp_all add: logged_in_def)
  then have "consistent_parts (registry st') (map silent (sessions st')) (users st')"
    using assms(5,6) by (simp add: logged_in_def)
  then show ?thesis
    by (simp add: consistent_def consistent_parts_silent)
qed

lemma logged_in_frame:
  "logged_in i row st st1 \<Longrightarrow> registry st' = registry st1 \<Longrightarrow>
   map silent (sessions st') = map silent (sessions st1) \<Longrightarrow> logged_in i row st st'"
  by (simp add: logged_in_def)

lemma perform_login_frame:
  assumes "perform_login E i envelope st = (st', e)"
  shows "users st' = users st \<and>
     ((registry st' = registry st \<and> map silent (sessions st') = map silent (sessions st)) \<or>
      (\<exists>row. logged_in i row st st'))"
proof -
  obtain st1 e1 where t: "login_try E i envelope st = (st1, e1)"
    by (cases "login_try E i envelope st")
  note f1 = login_try_frame [OF t]
  consider (same) "st' = st1" | (reply) d where "send_json i d st1 = (st', e)"
    using assms t by (auto simp: perform_login_def split: option.splits if_splits)
  then show ?thesis
  proof cases
    case same
    with f1 show ?thesis by simp
  next
    case reply
    note f2 = send_json_frame [OF reply]
    from f1 f2 show ?thesis
      by (metis logged_in_frame)
  qed
qed

lemma generate_user_id_nonempty: "uuid_nonempty E \<Longrightarrow> generate_user_id E em \<noteq> []"
  by (simp add: uuid_nonempty_def generate_user_id_def)

lemma consistent_dispatch:
  assumes "consistent st" and "uuid_nonempty E" and "i < length (sessions st)"
    and "phase (sessions st ! i) = ESTABLISHED"
    and "dispatch E i envelope st = (st', e)"
  shows "consistent st'"
proof (cases "is_authenticated (sessions st ! i)")
  case True
  with assms(5) have "process_message E i envelope st = (st', e)"
    by (simp add: dispatch_def)
  from process_message_frame [OF this] assms(1) show ?thesis
    by (auto intro: consistent_frame [of st])
next
  case False
  show ?thesis
  proof (cases "py_get envelope ''type''")
    case (Inl err)
    with False assms(5) have "st' = st" by (simp add: dispatch_def)
    with assms(1) show ?thesis by simp
  next
    case (Inr msg_type)
    consider (login) "perform_login E i envelope st = (st', e)"
      | (signup) "perform_signup E i envelope st = (st', e)"
      | (other) d where "send_json i d st = (st', e)"
      using False Inr assms(5) by (auto simp: dispatch_def split: if_splits)
    then show ?thesis
    proof cases
      case login
      from perform_login_frame [OF this] show ?thesis
      proof (elim conjE disjE exE)
        assume "users st' = users st" "registry st' = registry st"
          "map silent (sessions st') = map silent (sessions st)"
        with assms(1) show ?thesis
          by (auto intro: consistent_frame [of st])
      next
        fix row assume "users st' = users st" "logged_in i row st st'"
        with assms False show ?thesis
          by (auto intro: consistent_logged_in [of st i row st'])
      qed
    next
      case signup
      from perform_signup_frame [OF this] assms(1,2) show ?thesis
        by (auto intro!: consistent_frame [of st] simp: generate_user_id_nonempty)
    next
      case other
      from send_json_frame [OF this] assms(1) show ?thesis
        by (auto intro: consistent_frame [of st])
    qed
  qed
qed

lemma silent_length:
  "map silent xs = map silent ys \<Longrightarrow> length xs = length ys"
  by (rule map_eq_imp_length_eq)

lemma logged_in_length: "logged_in i row st st' \<Longrightarrow> length (sessions st') = length (sessions st)"
  by (auto simp: logged_in_def dest: arg_cong [where f = length])

lemma dispatch_length:
  assumes "dispatch E i envelope st = (st', e)"
  shows "length (sessions st') = length (sessions st)"
proof (cases "is_authenticated (sessions st ! i)")
  case True
  with assms have "process_message E i envelope st = (st', e)" by (simp add: dispatch_def)
  from process_message_frame [OF this] show ?thesis by (auto dest: silent_length)
next
  case False
  show ?thesis
  proof (cases "py_get envelope ''type''")
    case (Inl err)
    with False assms show ?thesis by (simp add: dispatch_def)
  next
    case (Inr msg_type)
    consider (login) "perform_login E i envelope st = (st', e)"
      | (signup) "perform_signup E i envelope st = (st', e)"
      | (other) d where "send_json i d st = (st', e)"
      using False Inr assms by (auto simp: dispatch_def split: if_splits)
    then show ?thesis
    proof cases
      case login
      from perform_login_frame [OF this] show ?thesis
        by (auto dest: silent_length logged_in_length)
    next
      case signup
      from perform_signup_frame [OF this] show ?thesis by (auto dest: silent_length)
    next
      case other
      from send_json_frame [OF this] show ?thesis by (auto dest: silent_length)
    qed
  qed
qed

subsection \<open>The invariant holds in every reachable state\<close>

lemma handle_key_exchange_frame:
  assumes "handle_key_exchange E i envelope st = (st', ok)"
    and "i < length (sessions st)" and "phase (sessions st ! i) = AWAIT_KEY"
  shows "registry st' = registry st \<and> users st' = users st \<and>
         (if ok then \<exists>k. map silent (sessions st') =
                      (map silent (sessions st))[i := silent ((sessions st ! i)\<lparr>secure_channel := Some k\<rparr>)]
          else st' = st)"
proof -
  have sent: "\<And>k d. send_json i d
       (st\<lparr>sessions := (sessions st)[i := (sessions st ! i)\<lparr>secure_channel := Some k\<rparr>]\<rparr>) =
       (st\<lparr>sessions := (sessions st)[i := (sessions st ! i)
            \<lparr>secure_channel := Some k, written := written (sessions st ! i) @ [Sealed d]\<rparr>]\<rparr>, None)"
    using assms(2,3) by (simp add: send_json_def Let_def)
  show ?thesis
    using assms(1,2) unfolding handle_key_exchange_def
    by (simp add: sent Let_def map_update SecureChannel_def
        split: sum.splits json.splits option.splits if_splits) (auto simp: map_update silent_def)
qed


lemma parts_append:
  assumes "consistent_parts reg ss us" and "\<not> is_authenticated s" and "phase s \<noteq> ESTABLISHED"
  shows "consistent_parts reg (ss @ [s]) us"
proof -
  have entry: "\<And>u h. map_of reg u = Some h \<Longrightarrow>
                 h < length ss \<and> state_of (ss ! h) = AUTH \<and> user_id (ss ! h) = Some u"
    using assms(1) by (simp add: consistent_parts_def)
  have 2: "\<forall>u h. map_of reg u = Some h \<longrightarrow>
             h < length (ss @ [s]) \<and> state_of ((ss @ [s]) ! h) = AUTH \<and>
             user_id ((ss @ [s]) ! h) = Some u"
    using entry by (simp add: nth_append less_SucI)
  show ?thesis
    using 2 assms unfolding consistent_parts_def by auto
qed

lemma consistent_accept: "consistent st \<Longrightarrow> consistent (accept st)"
  unfolding consistent_def accept_def
  by (simp add: parts_append)

lemma parts_established:
  assumes "consistent_parts reg ss us" and "i < length ss" and "phase (ss ! i) = AWAIT_KEY"
    and s': "user_id s' = user_id (ss ! i)" "is_authenticated s' = is_authenticated (ss ! i)"
        "secure_channel s' \<noteq> None"
  shows "consistent_parts reg (ss[i := s']) us"
proof -
  have entry: "\<And>u h. map_of reg u = Some h \<Longrightarrow>
                 h < length ss \<and> state_of (ss ! h) = AUTH \<and> user_id (ss ! h) = Some u"
    using assms(1) by (simp add: consistent_parts_def)
  have 2: "\<forall>u h. map_of reg u = Some h \<longrightarrow>
             h < length (ss[i := s']) \<and> state_of (ss[i := s'] ! h) = AUTH \<and>
             user_id (ss[i := s'] ! h) = Some u"
  proof (intro allI impI)
    fix u h assume a: "map_of reg u = Some h"
    from entry [OF a] assms(3) have "h \<noteq> i"
      by (auto simp: state_of_def split: phase.splits if_splits)
    with entry [OF a] show "h < length (ss[i := s']) \<and> state_of (ss[i := s'] ! h) = AUTH \<and>
             user_id (ss[i := s'] ! h) = Some u"
      by simp
  qed
  have 3: "\<forall>s \<in> set (ss[i := s']).
             (is_authenticated s \<longrightarrow> (\<exists>u. user_id s = Some u \<and> u \<noteq> [])) \<and>
             (phase s = ESTABLISHED \<longrightarrow> secure_channel s \<noteq> None)"
  proof
    fix s assume "s \<in> set (ss[i := s'])"
    then have "s = s' \<or> s \<in> set ss"
      using set_update_subset_insert [of ss i] by auto
    moreover have "ss ! i \<in> set ss" using assms(2) by simp
    ultimately show "(is_authenticated s \<longrightarrow> (\<exists>u. user_id s = Some u \<and> u \<noteq> [])) \<and>
             (phase s = ESTABLISHED \<longrightarrow> secure_channel s \<noteq> None)"
      using assms(1) s' unfolding consistent_parts_def by metis
  qed
  show ?thesis
    using 2 3 assms(1) unfolding consistent_parts_def by blast
qed


lemma silent_phase: "silent (s\<lparr>phase := p\<rparr>) = (silent s)\<lparr>phase := p\<rparr>"
  by (simp add: silent_def)

lemma consistent_established:
  assumes "consistent st" and "i < length (sessions st)" and "phase (sessions st ! i) = AWAIT_KEY"
    and "handle_key_exchange E i envelope st = (st', True)"
  shows "consistent (st'\<lparr>sessions := (sessions st')[i := (sessions st' ! i)\<lparr>phase := ESTABLISHED\<rparr>]\<rparr>)"
proof -
  let ?ss = "map silent (sessions st)"
  from handle_key_exchange_frame [OF assms(4,2,3)]
  obtain k where reg: "registry st' = registry st" and us: "users st' = users st"
    and ss: "map silent (sessions st') =
               ?ss[i := silent ((sessions st ! i)\<lparr>secure_channel := Some k\<rparr>)]"
    by auto
  let ?s' = "(silent ((sessions st ! i)\<lparr>secure_channel := Some k\<rparr>))\<lparr>phase := ESTABLISHED\<rparr>"
  have len: "i < length (sessions st')"
    using ss assms(2) by (auto dest: arg_cong [where f = length])
  have "silent (sessions st' ! i) = silent ((sessions st ! i)\<lparr>secure_channel := Some k\<rparr>)"
    using arg_cong [OF ss, of "\<lambda>xs. xs ! i"] len assms(2) by simp
  then have upd: "map silent ((sessions st')[i := (sessions st' ! i)\<lparr>phase := ESTABLISHED\<rparr>]) =
               ?ss[i := ?s']"
    using ss by (simp add: map_update silent_phase)
  have base: "consistent_parts (registry st) ?ss (users st)"
    using assms(1) by (simp add: consistent_def consistent_parts_silent)
  have "consistent_parts (registry st) (?ss[i := ?s']) (users st)"
    by (rule parts_established [OF base]) (use assms(2,3) in simp_all)
  then show ?thesis
    using reg us upd consistent_parts_silent
      [of "registry st" "(sessions st')[i := (sessions st' ! i)\<lparr>phase := ESTABLISHED\<rparr>]" "users st"]
    by (simp add: consistent_def)
qed

lemma consistent_recv:
  assumes "consistent st" and "uuid_nonempty E"
  shows "consistent (recv E i l st)"
proof (cases "i < length (sessions st)")
  case False
  with assms(1) show ?thesis by (simp add: recv_def)
next
  case i: True
  note td = consistent_teardown [OF assms(1) i]
  show ?thesis
  proof (cases "phase (sessions st ! i)")
    case CLOSED
    with i assms(1) show ?thesis by (simp add: recv_def)
  next
    case AWAIT_KEY
    show ?thesis
    proof (cases l)
      case (PlainLine envelope)
      show ?thesis
      proof (cases "py_get envelope ''type'' = Inr (Some (JStr ''key_exchange''))")
        case False
        with i AWAIT_KEY PlainLine td show ?thesis
          by (auto simp: recv_def split: sum.splits)
      next
        case True
        obtain st' ok where h: "handle_key_exchange E i envelope st = (st', ok)"
          by (cases "handle_key_exchange E i envelope st")
        show ?thesis
        proof (cases ok)
          case True
          with h consistent_established [OF assms(1) i AWAIT_KEY, of E envelope st']
          show ?thesis
            using i AWAIT_KEY PlainLine \<open>py_get envelope ''type'' = Inr (Some (JStr ''key_exchange''))\<close>
            by (simp add: recv_def)
        next
          case False
          with h handle_key_exchange_frame [OF h i AWAIT_KEY] have "st' = st" by simp
          with h False td show ?thesis
            using i AWAIT_KEY PlainLine \<open>py_get envelope ''type'' = Inr (Some (JStr ''key_exchange''))\<close>
            by (simp add: recv_def)
        qed
      qed
    qed (use i AWAIT_KEY td in \<open>simp_all add: recv_def\<close>)
  next
    case ESTABLISHED
    show ?thesis
    proof (cases l)
      case (SealedLine envelope)
      obtain st' e where d: "dispatch E i envelope st = (st', e)"
        by (cases "dispatch E i envelope st")
      have c: "consistent st'"
        using consistent_dispatch [OF assms i ESTABLISHED d] .
      have len: "i < length (sessions st')"
        using dispatch_length [OF d] i by simp
      show ?thesis
        using i ESTABLISHED SealedLine d c consistent_teardown [OF c len]
        by (cases e) (simp_all add: recv_def)
    qed (use i ESTABLISHED td in \<open>simp_all add: recv_def\<close>)
  qed
qed

lemma consistent_init: "consistent (init pem)"
  by (simp add: consistent_def consistent_parts_def init_def)

lemma consistent_step: "consistent st \<Longrightarrow> uuid_nonempty E \<Longrightarrow> consistent (step E st ev)"
  by (cases ev) (simp_all add: consistent_accept consistent_recv)

lemma consistent_run: "consistent st \<Longrightarrow> uuid_nonempty E \<Longrightarrow> consistent (run E st evs)"
  unfolding run_def
  by (induction evs arbitrary: st) (simp_all add: consistent_step)

subsection \<open>Registry cardinality\<close>

lemma consistent_registry_bound:
  assumes "consistent st"
  shows "length (registry st) \<le> length (auth_sessions st)"
proof -
  let ?reg = "registry st" and ?ss = "sessions st"
  have d: "distinct (map fst ?reg)"
    using assms by (simp add: consistent_def consistent_parts_def)
  have entry: "\<And>u h. (u, h) \<in> set ?reg \<Longrightarrow>
                 h < length ?ss \<and> state_of (?ss ! h) = AUTH \<and> user_id (?ss ! h) = Some u"
    using assms d by (simp add: consistent_def consistent_parts_def)
  have "inj_on snd (set ?reg)"
  proof (rule inj_onI)
    fix x y assume a: "x \<in> set ?reg" "y \<in> set ?reg" "snd x = snd y"
    obtain u h where x: "x = (u, h)" by (cases x)
    obtain u' h' where y: "y = (u', h')" by (cases y)
    from entry [of u h] entry [of u' h'] a x y show "x = y" by simp
  qed
  moreover have "distinct ?reg"
    using d by (simp add: distinct_map)
  ultimately have "distinct (map snd ?reg)"
    by (simp add: distinct_map)
  then have "length ?reg = card (set (map snd ?reg))"
    by (metis distinct_card length_map)
  also have "\<dots> \<le> card {i. i < length ?ss \<and> state_of (?ss ! i) = AUTH}"
    by (rule card_mono) (use entry in auto)
  also have "\<dots> = length (auth_sessions st)"
    by (simp add: auth_sessions_def length_filter_conv_card)
  finally show ?thesis .
qed

text \<open>
  Claim C4 says that the registry has as many entries as there are sessions in state
  AUTH. It fails when two sessions log in to the same account: the second login
  overwrites the entry of the first, and both sessions stay authenticated.
\<close>

theorem registry_cardinality_counterexample:
  "length (registry same_user_twice) = 1 \<and> length (auth_sessions same_user_twice) = 2"
  by code_simp

text \<open>
  Claim C4, amended. In every state the server reaches by accepting connections and
  processing received lines one after the other, the registry has at most as many
  entries as there are sessions in state AUTH, it has one entry per user id, and every
  entry leads to a session that is in state AUTH under that user id.
\<close>

theorem registry_bounded_by_auth_sessions:
  assumes "uuid_nonempty E"
  shows "length (registry (run E (init pem) evs)) \<le> length (auth_sessions (run E (init pem) evs))
         \<and> distinct (map fst (registry (run E (init pem) evs)))
         \<and> (\<forall>(u, h) \<in> set (registry (run E (init pem) evs)).
               h < length (sessions (run E (init pem) evs)) \<and>
               state_of (sessions (run E (init pem) evs) ! h) = AUTH \<and>
               user_id (sessions (run E (init pem) evs) ! h) = Some u)"
proof -
  have c: "consistent (run E (init pem) evs)"
    using consistent_init assms by (rule consistent_run)
  then have "distinct (map fst (registry (run E (init pem) evs)))"
    by (simp add: consistent_def consistent_parts_def)
  with c consistent_registry_bound [OF c] show ?thesis
    by (auto simp: consistent_def consistent_parts_def)
qed

theorem registry_bounded_by_auth_sessions_witness:
  "length (registry same_user_twice) \<le> length (auth_sessions same_user_twice)
   \<and> distinct (map fst (registry same_user_twice))
   \<and> state_of (sessions same_user_twice ! 1) = AUTH
   \<and> user_id (sessions same_user_twice ! 1) = Some ''id-a@x''"
proof -
  have "uuid_nonempty demo_env"
    by (simp add: uuid_nonempty_def demo_env_def)
  note w = registry_bounded_by_auth_sessions [OF this, where pem = "''PEM''" and evs =
       "[Accept, Accept,
        Recv 0 (key_exchange_line demo_key), Recv 1 (key_exchange_line demo_key),
        Recv 0 (signup_line ''Alice'' ''a@x'' ''p1''),
        Recv 0 (login_line ''a@x'' ''p1''), Recv 1 (login_line ''a@x'' ''p1'')]",
       folded same_user_twice_def]
  have r: "registry same_user_twice = [(''id-a@x'', 1)]"
    by code_simp
  from w show ?thesis
    by (simp add: r)
qed

subsection \<open>The scenarios of claims C7 and C9, evaluated\<close>

lemma connected_value:
  "connected = \<lparr>public_key_pem = ''PEM'',
      sessions = [\<lparr>user_id = None, full_name = None, email = None, is_authenticated = False,
                   secure_channel = None, phase = AWAIT_KEY,
                   written = [Plain (handshake_start (init ''PEM''))]\<rparr>],
      registry = [], users = [], messages = []\<rparr>"
  by code_simp

lemma handshaken_value:
  "handshaken = \<lparr>public_key_pem = ''PEM'',
      sessions = [\<lparr>user_id = None, full_name = None, email = None, is_authenticated = False,
                   secure_channel = Some (map of_char demo_key), phase = ESTABLISHED,
                   written = [Plain (handshake_start (init ''PEM'')), Sealed handshake_complete]\<rparr>],
      registry = [], users = [], messages = []\<rparr>"
  by code_simp

theorem unauth_rejects_other_types_witness:
  "state_of (sessions (recv demo_env 0 (SealedLine spoofed_chat) handshaken) ! 0) = UNAUTH \<and>
   written (sessions (recv demo_env 0 (SealedLine spoofed_chat) handshaken) ! 0) =
     written (sessions handshaken ! 0) @
       [Sealed (JObj [(''type'', JStr ''response''),
          (''payload'', JObj [(''status'', JStr ''error''),
             (''message'', JStr ''Not authenticated. Send 'login' or 'signup'.'')])])]"
proof -
  have 1: "0 < length (sessions handshaken)" by (simp add: handshaken_value)
  have 2: "phase (sessions handshaken ! 0) = ESTABLISHED" by (simp add: handshaken_value)
  have 3: "\<not> is_authenticated (sessions handshaken ! 0)" by (simp add: handshaken_value)
  have 4: "secure_channel (sessions handshaken ! 0) \<noteq> None" by (simp add: handshaken_value)
  have 5: "map_of [(''type'', JStr ''chat''),
           (''payload'', JObj [(''recipient_id'', JStr ''id-b@x''), (''text'', JStr ''hi''),
                               (''sender_id'', JStr ''id-b@x''), (''sender_name'', JStr ''Bob'')])]
             ''type'' \<noteq> Some (JStr ''login'')" by simp
  have 6: "map_of [(''type'', JStr ''chat''),
           (''payload'', JObj [(''recipient_id'', JStr ''id-b@x''), (''text'', JStr ''hi''),
                               (''sender_id'', JStr ''id-b@x''), (''sender_name'', JStr ''Bob'')])]
             ''type'' \<noteq> Some (JStr ''signup'')" by simp
  note w = unauth_rejects_other_types [OF 1 2 3 4 5 6, of demo_env, folded spoofed_chat_def]
  show ?thesis
    unfolding conjunct1 [OF w] by (simp add: handshaken_value state_of_def)
qed

theorem short_key_closes_session_witness:
  "sessions (recv demo_env 0 (key_exchange_line ''too short'') connected) =
     [\<lparr>user_id = None, full_name = None, email = None, is_authenticated = False,
       secure_channel = None, phase = CLOSED,
       written = [Plain (handshake_start (init ''PEM''))]\<rparr>]"
proof -
  let ?env = "JObj [(''type'', JStr ''key_exchange''), (''payload'', JObj [(''key'', JStr ''too short'')])]"
  have 1: "0 < length (sessions connected)" by (simp add: connected_value)
  have 2: "phase (sessions connected ! 0) = AWAIT_KEY" by (simp add: connected_value)
  have 3: "py_get ?env ''type'' = Inr (Some (JStr ''key_exchange''))" by simp
  have 4: "py_getitem ?env ''payload'' = Inr (JObj [(''key'', JStr ''too short'')])" by simp
  have 5: "py_getitem (JObj [(''key'', JStr ''too short'')]) ''key'' = Inr (JStr ''too short'')" by simp
  have 6: "b64decode demo_env ''too short'' = Some (map of_char ''too short'')"
    by (simp add: demo_env_def)
  have 7: "rsa_decrypt demo_env (map of_char ''too short'') = Some (map of_char ''too short'')"
    by (simp add: demo_env_def)
  have 8: "length (map of_char ''too short'' :: nat list) \<noteq> 32" by simp
  note w = short_key_closes_session [OF 1 2 3 4 5 6 7 8]
  show ?thesis
    unfolding key_exchange_line_def conjunct1 [OF w] by (simp add: connected_value)
qed

subsection \<open>Delivery or persistence\<close>

lemma route_well_formed:
  assumes "py_getitem envelope ''payload'' = Inr payload"
    and "py_getitem payload ''recipient_id'' = Inr (JStr rid)"
    and "py_getitem payload ''text'' = Inr (JStr text)"
    and "i < length (sessions st)"
    and "user_id (sessions st ! i) = Some sid"
    and "secure_channel (sessions st ! i) \<noteq> None"
    and "phase (sessions st ! i) \<noteq> CLOSED"
    and "\<forall>r. map_of (registry st) rid = Some r \<longrightarrow>
           r < length (sessions st) \<and> secure_channel (sessions st ! r) \<noteq> None \<and>
           phase (sessions st ! r) \<noteq> CLOSED"
    and "bind_text E (JStr rid) = Inr (Some rid)"
  shows "route_chat_message E i envelope st =
           (case map_of (registry st) rid of
              Some r \<Rightarrow>
                (st\<lparr>sessions := (sessions st)[r := (sessions st ! r)
                       \<lparr>written := written (sessions st ! r) @
                          [Sealed (JObj [(''type'', JStr ''new_message''),
                             (''payload'', JObj [(''sender_id'', JStr sid),
                                (''sender_name'', opt_str (full_name (sessions st ! i))),
                                (''text'', JStr text)])])]\<rparr>]\<rparr>, None)
            | None \<Rightarrow>
                (st\<lparr>messages := messages st @
                       [\<lparr>m_sender_id = sid, m_recipient_id = rid, m_payload = text\<rparr>],
                    sessions := (sessions st)[i := (sessions st ! i)
                       \<lparr>written := written (sessions st ! i) @
                          [Sealed (JObj [(''type'', JStr ''response''),
                             (''payload'', JObj [(''status'', JStr ''info''),
                                (''message'', JStr ''Recipient is offline. Message stored.'')])])]\<rparr>]\<rparr>,
                 None))"
  using assms
  by (auto simp: route_chat_message_def route_try_def send_json_def delivery_envelope_def Let_def
      store_message_def offline_reply_def response_def opt_str_def split: option.splits)

text \<open>
  Claim C6. For a chat envelope with a string \<^verbatim>\<open>recipient_id\<close> and a string \<^verbatim>\<open>text\<close>,
  sent by an authenticated session: when the recipient has a registry entry, the
  router writes exactly one \<^verbatim>\<open>new_message\<close> envelope to the recipient's session and
  changes nothing else, so nothing is stored and nothing is sent to the sender; when
  the recipient has no entry, the router appends exactly one row to the stored messages
  and writes exactly the "Recipient is offline. Message stored." reply to the sender.
  The two outcomes exclude each other.
\<close>

theorem chat_delivered_or_stored:
  assumes "py_getitem envelope ''payload'' = Inr payload"
    and "py_getitem payload ''recipient_id'' = Inr (JStr rid)"
    and "py_getitem payload ''text'' = Inr (JStr text)"
    and "i < length (sessions st)"
    and "user_id (sessions st ! i) = Some sid"
    and "secure_channel (sessions st ! i) \<noteq> None"
    and "phase (sessions st ! i) \<noteq> CLOSED"
    and "\<forall>r. map_of (registry st) rid = Some r \<longrightarrow>
           r < length (sessions st) \<and> secure_channel (sessions st ! r) \<noteq> None \<and>
           phase (sessions st ! r) \<noteq> CLOSED"
    and "bind_text E (JStr rid) = Inr (Some rid)"
  shows "route_chat_message E i envelope st =
           (case map_of (registry st) rid of
              Some r \<Rightarrow>
                (st\<lparr>sessions := (sessions st)[r := (sessions st ! r)
                       \<lparr>written := written (sessions st ! r) @
                          [Sealed (JObj [(''type'', JStr ''new_message''),
                             (''payload'', JObj [(''sender_id'', JStr sid),
                                (''sender_name'', opt_str (full_name (sessions st ! i))),
                                (''text'', JStr text)])])]\<rparr>]\<rparr>, None)
            | None \<Rightarrow>
                (st\<lparr>messages := messages st @
                       [\<lparr>m_sender_id = sid, m_recipient_id = rid, m_payload = text\<rparr>],
                    sessions := (sessions st)[i := (sessions st ! i)
                       \<lparr>written := written (sessions st ! i) @
                          [Sealed (JObj [(''type'', JStr ''response''),
                             (''payload'', JObj [(''status'', JStr ''info''),
                                (''message'', JStr ''Recipient is offline. Message stored.'')])])]\<rparr>]\<rparr>,
                 None))"
  using assms by (rule route_well_formed)

theorem chat_delivered_or_stored_witness:
  "messages (fst (route_chat_message demo_env 0 offline_chat two_online)) =
     [\<lparr>m_sender_id = ''id-a@x'', m_recipient_id = ''id-c@x'', m_payload = ''later''\<rparr>] \<and>
   written (sessions (fst (route_chat_message demo_env 0 offline_chat two_online)) ! 0) =
     written (sessions two_online ! 0) @
       [Sealed (JObj [(''type'', JStr ''response''),
          (''payload'', JObj [(''status'', JStr ''info''),
             (''message'', JStr ''Recipient is offline. Message stored.'')])])] \<and>
   sessions (fst (route_chat_message demo_env 0 offline_chat two_online)) ! 1 =
     sessions two_online ! 1"
proof -
  have 1: "py_getitem offline_chat ''payload'' =
             Inr (JObj [(''recipient_id'', JStr ''id-c@x''), (''text'', JStr ''later'')])"
    by (simp add: offline_chat_def)
  have 2: "py_getitem (JObj [(''recipient_id'', JStr ''id-c@x''), (''text'', JStr ''later'')])
             ''recipient_id'' = Inr (JStr ''id-c@x'')" by simp
  have 3: "py_getitem (JObj [(''recipient_id'', JStr ''id-c@x''), (''text'', JStr ''later'')])
             ''text'' = Inr (JStr ''later'')" by simp
  have 4: "0 < length (sessions two_online)" by (simp add: two_online_value)
  have 5: "user_id (sessions two_online ! 0) = Some ''id-a@x''" by (simp add: two_online_value)
  have 6: "secure_channel (sessions two_online ! 0) \<noteq> None" by (simp add: two_online_value)
  have 7: "phase (sessions two_online ! 0) \<noteq> CLOSED" by (simp add: two_online_value)
  have 8: "\<forall>r. map_of (registry two_online) ''id-c@x'' = Some r \<longrightarrow>
           r < length (sessions two_online) \<and> secure_channel (sessions two_online ! r) \<noteq> None \<and>
           phase (sessions two_online ! r) \<noteq> CLOSED" by (simp add: two_online_value)
  have 9: "bind_text demo_env (JStr ''id-c@x'') = Inr (Some ''id-c@x'')"
    by (simp add: demo_env_def)
  note w = chat_delivered_or_stored [OF 1 2 3 4 5 6 7 8 9]
  show ?thesis
    unfolding w by (simp add: two_online_value)
qed

subsection \<open>Logout\<close>

text \<open>
  Claim C3 says that an inner envelope of type \<^verbatim>\<open>logout\<close> closes an authenticated
  session without a response. \<^verbatim>\<open>_process_message\<close> has no branch for it: Alice's
  session answers with the error response for unknown commands, stays in state AUTH and
  stays registered.
\<close>

theorem logout_counterexample:
  "state_of (sessions (recv demo_env 0 (SealedLine logout_envelope) two_online) ! 0) = AUTH \<and>
   written (sessions (recv demo_env 0 (SealedLine logout_envelope) two_online) ! 0) =
     written (sessions two_online ! 0) @
       [Sealed (JObj [(''type'', JStr ''response''),
          (''payload'', JObj [(''status'', JStr ''error''),
             (''message'', JStr ''Unknown command type: logout'')])])] \<and>
   map_of (registry (recv demo_env 0 (SealedLine logout_envelope) two_online)) ''id-a@x'' = Some 0"
  by code_simp

text \<open>
  Claim C3, amended. An authenticated session answers an inner envelope of type
  \<^verbatim>\<open>logout\<close> with the error response "Unknown command type: logout"; the session stays
  in state AUTH, the registry is unchanged and the loop goes on. The session is closed,
  and its user id leaves the registry, when the stream then ends.
\<close>

theorem logout_is_unknown_command:
  assumes "i < length (sessions st)"
    and "phase (sessions st ! i) = ESTABLISHED"
    and "is_authenticated (sessions st ! i)"
    and "secure_channel (sessions st ! i) \<noteq> None"
    and "user_id (sessions st ! i) = Some uid" and "uid \<noteq> []"
    and "map_of kvs ''type'' = Some (JStr ''logout'')"
  shows "recv E i (SealedLine (JObj kvs)) st =
           st\<lparr>sessions := (sessions st)[i := (sessions st ! i)
                  \<lparr>written := written (sessions st ! i) @
                     [Sealed (JObj [(''type'', JStr ''response''),
                        (''payload'', JObj [(''status'', JStr ''error''),
                           (''message'', JStr ''Unknown command type: logout'')])])]\<rparr>]\<rparr>
         \<and> state_of (sessions (recv E i (SealedLine (JObj kvs)) st) ! i) = AUTH
         \<and> registry (recv E i (SealedLine (JObj kvs)) st) = registry st
         \<and> state_of (sessions (recv E i EOF (recv E i (SealedLine (JObj kvs)) st)) ! i) = CLOSED_STATE
         \<and> map_of (registry (recv E i EOF (recv E i (SealedLine (JObj kvs)) st))) uid = None"
proof -
  let ?st1 = "st\<lparr>sessions := (sessions st)[i := (sessions st ! i)
                  \<lparr>written := written (sessions st ! i) @
                     [Sealed (JObj [(''type'', JStr ''response''),
                        (''payload'', JObj [(''status'', JStr ''error''),
                           (''message'', JStr ''Unknown command type: logout'')])])]\<rparr>]\<rparr>"
  have 1: "recv E i (SealedLine (JObj kvs)) st = ?st1"
    using assms
    by (auto simp: recv_def dispatch_def process_message_def send_json_def error_response_def
        response_def Let_def format_type_def)
  have 2: "recv E i EOF ?st1 = teardown i ?st1"
    using assms by (simp add: recv_def)
  have 3: "state_of (sessions (teardown i ?st1) ! i) = CLOSED_STATE"
    using assms by (simp add: teardown_def Let_def state_of_def split: option.splits)
  have 4: "map_of (registry (teardown i ?st1)) uid = None"
    using assms by (simp add: teardown_def Let_def unregister_absent)
  show ?thesis
    unfolding 1 2 using 3 4 assms by (simp add: state_of_def)
qed

theorem logout_is_unknown_command_witness:
  "state_of (sessions (recv demo_env 0 (SealedLine logout_envelope) two_online) ! 0) = AUTH \<and>
   registry (recv demo_env 0 (SealedLine logout_envelope) two_online) = registry two_online \<and>
   state_of (sessions (recv demo_env 0 EOF
      (recv demo_env 0 (SealedLine logout_envelope) two_online)) ! 0) = CLOSED_STATE \<and>
   map_of (registry (recv demo_env 0 EOF
      (recv demo_env 0 (SealedLine logout_envelope) two_online))) ''id-a@x'' = None"
proof -
  have 1: "0 < length (sessions two_online)" by (simp add: two_online_value)
  have 2: "phase (sessions two_online ! 0) = ESTABLISHED" by (simp add: two_online_value)
  have 3: "is_authenticated (sessions two_online ! 0)" by (simp add: two_online_value)
  have 4: "secure_channel (sessions two_online ! 0) \<noteq> None" by (simp add: two_online_value)
  have 5: "user_id (sessions two_online ! 0) = Some ''id-a@x''" by (simp add: two_online_value)
  have 6: "''id-a@x'' \<noteq> []" by simp
  have 7: "map_of [(''type'', JStr ''logout''), (''payload'', JObj [])] ''type'' =
             Some (JStr ''logout'')" by simp
  note w = logout_is_unknown_command [OF 1 2 3 4 5 6 7, of demo_env, folded logout_envelope_def]
  from w show ?thesis by blast
qed

subsection \<open>Teardown of an evicted session\<close>

lemma consistent_entry:
  "consistent st \<Longrightarrow> map_of (registry st) u = Some h \<Longrightarrow>
     h < length (sessions st) \<and> state_of (sessions st ! h) = AUTH \<and>
     user_id (sessions st ! h) = Some u"
  by (simp add: consistent_def consistent_parts_def)

lemma consistent_auth_id:
  "consistent st \<Longrightarrow> i < length (sessions st) \<Longrightarrow> is_authenticated (sessions st ! i) \<Longrightarrow>
     \<exists>u. user_id (sessions st ! i) = Some u \<and> u \<noteq> []"
  by (simp add: consistent_def consistent_parts_def)

lemma consistent_channel:
  "consistent st \<Longrightarrow> i < length (sessions st) \<Longrightarrow> phase (sessions st ! i) = ESTABLISHED \<Longrightarrow>
     secure_channel (sessions st ! i) \<noteq> None"
  by (simp add: consistent_def consistent_parts_def)

lemma state_of_AUTH: "state_of s = AUTH \<longleftrightarrow> phase s = ESTABLISHED \<and> is_authenticated s"
  by (simp add: state_of_def split: phase.splits)

lemma online_ids_registered:
  assumes "consistent st" and "e \<in> set (get_online_users_list st)"
  shows "\<exists>u h. map_of (registry st) u = Some h \<and> py_getitem e ''id'' = Inr (JStr u)"
proof -
  from assms(2) obtain u h where m: "(u, h) \<in> set (registry st)"
    and e: "e = online_entry (sessions st ! h)"
    by (auto simp: get_online_users_list_def)
  have "distinct (map fst (registry st))"
    using assms(1) by (simp add: consistent_def consistent_parts_def)
  with m have "map_of (registry st) u = Some h" by simp
  moreover from consistent_entry [OF assms(1) this] have "user_id (sessions st ! h) = Some u"
    by simp
  ultimately show ?thesis
    using e by (auto simp: online_entry_def opt_str_def)
qed

lemma teardown_auth:
  assumes "i < length (sessions st)" and "is_authenticated (sessions st ! i)"
    and "user_id (sessions st ! i) = Some u" and "u \<noteq> []"
  shows "teardown i st =
           st\<lparr>sessions := (sessions st)[i := (sessions st ! i)\<lparr>phase := CLOSED\<rparr>],
              registry := unregister_user u (registry st)\<rparr>"
  using assms by (simp add: teardown_def Let_def)

text \<open>
  Claim C5. Session S1 is authenticated as \<open>u\<close>, and a later login of session S2 as
  the same \<open>u\<close> has overwritten the registry entry, which now leads to S2. When S1's
  connection ends, its teardown unregisters \<open>u\<close>: the entry of S2 is gone although S2
  is still open and authenticated, \<open>u\<close> is not in the list \<^verbatim>\<open>whoisonline\<close> gets, and
  a chat addressed to \<open>u\<close> by another authenticated session is stored and answered
  with the offline reply.
\<close>

theorem evicted_teardown_unregisters_successor:
  assumes "consistent st"
    and "s1 < length (sessions st)" and "s1 \<noteq> s2"
    and "state_of (sessions st ! s1) = AUTH" and "user_id (sessions st ! s1) = Some u"
    and "map_of (registry st) u = Some s2"
    and "k < length (sessions st)" and "k \<noteq> s1"
    and "state_of (sessions st ! k) = AUTH" and "user_id (sessions st ! k) = Some sid"
    and "py_getitem envelope ''payload'' = Inr payload"
    and "py_getitem payload ''recipient_id'' = Inr (JStr u)"
    and "py_getitem payload ''text'' = Inr (JStr text)"
    and "bind_text E (JStr u) = Inr (Some u)"
  shows "map_of (registry (recv E s1 EOF st)) u = None
       \<and> state_of (sessions (recv E s1 EOF st) ! s2) = AUTH
       \<and> user_id (sessions (recv E s1 EOF st) ! s2) = Some u
       \<and> (\<forall>e \<in> set (get_online_users_list (recv E s1 EOF st)). py_getitem e ''id'' \<noteq> Inr (JStr u))
       \<and> route_chat_message E k envelope (recv E s1 EOF st) =
           ((recv E s1 EOF st)\<lparr>messages := messages st @
                 [\<lparr>m_sender_id = sid, m_recipient_id = u, m_payload = text\<rparr>],
               sessions := (sessions (recv E s1 EOF st))[k := (sessions st ! k)
                 \<lparr>written := written (sessions st ! k) @
                    [Sealed (JObj [(''type'', JStr ''response''),
                       (''payload'', JObj [(''status'', JStr ''info''),
                          (''message'', JStr ''Recipient is offline. Message stored.'')])])]\<rparr>]\<rparr>,
            None)"
proof -
  let ?st' = "recv E s1 EOF st"
  have p1: "phase (sessions st ! s1) = ESTABLISHED" and a1: "is_authenticated (sessions st ! s1)"
    using assms(4) by (simp_all add: state_of_AUTH)
  have u: "u \<noteq> []"
    using consistent_auth_id [OF assms(1,2) a1] assms(5) by simp
  have td: "?st' = teardown s1 st"
    using assms(2) p1 by (simp add: recv_def)
  have st': "?st' = st\<lparr>sessions := (sessions st)[s1 := (sessions st ! s1)\<lparr>phase := CLOSED\<rparr>],
                        registry := unregister_user u (registry st)\<rparr>"
    unfolding td using assms(2) a1 assms(5) u by (rule teardown_auth)
  have c': "consistent ?st'"
    unfolding td using assms(1,2) by (rule consistent_teardown)
  have none: "map_of (registry ?st') u = None"
    by (simp add: st' unregister_absent)
  note s2 = consistent_entry [OF assms(1,6)]
  have 2: "state_of (sessions ?st' ! s2) = AUTH \<and> user_id (sessions ?st' ! s2) = Some u"
    using s2 assms(3) by (simp add: st')
  have 3: "\<forall>e \<in> set (get_online_users_list ?st'). py_getitem e ''id'' \<noteq> Inr (JStr u)"
  proof
    fix e assume "e \<in> set (get_online_users_list ?st')"
    from online_ids_registered [OF c' this] none
    show "py_getitem e ''id'' \<noteq> Inr (JStr u)" by auto
  qed
  have k: "sessions ?st' ! k = sessions st ! k" "k < length (sessions ?st')"
    using assms(7,8) by (simp_all add: st')
  have pk: "phase (sessions st ! k) = ESTABLISHED"
    using assms(9) by (simp add: state_of_AUTH)
  have ck: "secure_channel (sessions st ! k) \<noteq> None"
    using consistent_channel [OF assms(1,7) pk] .
  have 4: "route_chat_message E k envelope ?st' =
           (case map_of (registry ?st') u of
              Some r \<Rightarrow>
                (?st'\<lparr>sessions := (sessions ?st')[r := (sessions ?st' ! r)
                       \<lparr>written := written (sessions ?st' ! r) @
                          [Sealed (JObj [(''type'', JStr ''new_message''),
                             (''payload'', JObj [(''sender_id'', JStr sid),
                                (''sender_name'', opt_str (full_name (sessions ?st' ! k))),
                                (''text'', JStr text)])])]\<rparr>]\<rparr>, None)
            | None \<Rightarrow>
                (?st'\<lparr>messages := messages ?st' @
                       [\<lparr>m_sender_id = sid, m_recipient_id = u, m_payload = text\<rparr>],
                    sessions := (sessions ?st')[k := (sessions ?st' ! k)
                       \<lparr>written := written (sessions ?st' ! k) @
                          [Sealed (JObj [(''type'', JStr ''response''),
                             (''payload'', JObj [(''status'', JStr ''info''),
                                (''message'', JStr ''Recipient is offline. Message stored.'')])])]\<rparr>]\<rparr>,
                 None))"
    by (rule route_well_formed [OF assms(11,12,13) k(2)])
       (use k assms(10,14) ck pk none in simp_all)
  have m: "messages ?st' = messages st"
    by (simp add: st')
  show ?thesis
    using none 2 3 4 by (simp add: k m)
qed

lemma summary_facts:
  assumes "summary st = (reg, ss, ms)"
  shows "registry st = reg" and "messages st = ms" and "length (sessions st) = length ss"
    and "i < length ss \<Longrightarrow> state_of (sessions st ! i) = state_of (ss ! i)"
    and "i < length ss \<Longrightarrow> user_id (sessions st ! i) = user_id (ss ! i)"
proof -
  from assms have r: "registry st = reg" "messages st = ms" and m: "map silent (sessions st) = ss"
    by (simp_all add: summary_def)
  from m have l: "length (sessions st) = length ss" by auto
  have n: "i < length ss \<Longrightarrow> silent (sessions st ! i) = ss ! i"
    using m l by (metis nth_map)
  show "registry st = reg" "messages st = ms" "length (sessions st) = length ss"
    using r l by simp_all
  show "i < length ss \<Longrightarrow> state_of (sessions st ! i) = state_of (ss ! i)"
    using n by (metis state_of_silent)
  show "i < length ss \<Longrightarrow> user_id (sessions st ! i) = user_id (ss ! i)"
    using n by (metis silent_simps(1))
qed

lemma evicted_summary:
  "summary evicted =
     ([(''id-a@x'', 1), (''id-b@x'', 2)],
      [\<lparr>user_id = Some ''id-a@x'', full_name = Some ''Alice'', email = Some ''a@x'',
         is_authenticated = True, secure_channel = Some (map of_char demo_key),
         phase = ESTABLISHED, written = []\<rparr>,
       \<lparr>user_id = Some ''id-a@x'', full_name = Some ''Alice'', email = Some ''a@x'',
         is_authenticated = True, secure_channel = Some (map of_char demo_key),
         phase = ESTABLISHED, written = []\<rparr>,
       \<lparr>user_id = Some ''id-b@x'', full_name = Some ''Bob'', email = Some ''b@x'',
         is_authenticated = True, secure_channel = Some (map of_char demo_key),
         phase = ESTABLISHED, written = []\<rparr>],
      [])"
  by code_simp

theorem evicted_teardown_unregisters_successor_witness:
  "map_of (registry (recv demo_env 0 EOF evicted)) ''id-a@x'' = None \<and>
   state_of (sessions (recv demo_env 0 EOF evicted) ! 1) = AUTH \<and>
   user_id (sessions (recv demo_env 0 EOF evicted) ! 1) = Some ''id-a@x'' \<and>
   messages (fst (route_chat_message demo_env 2 chat_to_alice (recv demo_env 0 EOF evicted))) =
     [\<lparr>m_sender_id = ''id-b@x'', m_recipient_id = ''id-a@x'', m_payload = ''hello''\<rparr>]"
proof -
  note f = summary_facts [OF evicted_summary]
  have "uuid_nonempty demo_env"
    by (simp add: uuid_nonempty_def demo_env_def)
  with consistent_init have 1: "consistent evicted"
    unfolding evicted_def by (rule consistent_run)
  have 2: "0 < length (sessions evicted)" by (simp add: f)
  have 3: "(0::nat) \<noteq> 1" by simp
  have 4: "state_of (sessions evicted ! 0) = AUTH" using f(4) [of 0] by (simp add: state_of_def)
  have 5: "user_id (sessions evicted ! 0) = Some ''id-a@x''" by (simp add: f)
  have 6: "map_of (registry evicted) ''id-a@x'' = Some 1" by (simp add: f)
  have 7: "2 < length (sessions evicted)" by (simp add: f)
  have 8: "(2::nat) \<noteq> 0" by simp
  have 9: "state_of (sessions evicted ! 2) = AUTH" using f(4) [of 2] by (simp add: state_of_def)
  have 10: "user_id (sessions evicted ! 2) = Some ''id-b@x''" by (simp add: f)
  have 11: "py_getitem chat_to_alice ''payload'' =
              Inr (JObj [(''recipient_id'', JStr ''id-a@x''), (''text'', JStr ''hello'')])"
    by (simp add: chat_to_alice_def)
  have 12: "py_getitem (JObj [(''recipient_id'', JStr ''id-a@x''), (''text'', JStr ''hello'')])
              ''recipient_id'' = Inr (JStr ''id-a@x'')" by simp
  have 13: "py_getitem (JObj [(''recipient_id'', JStr ''id-a@x''), (''text'', JStr ''hello'')])
              ''text'' = Inr (JStr ''hello'')" by simp
  have 14: "bind_text demo_env (JStr ''id-a@x'') = Inr (Some ''id-a@x'')"
    by (simp add: demo_env_def)
  note w = evicted_teardown_unregisters_successor [OF 1 2 3 4 5 6 7 8 9 10 11 12 13 14]
  from w show ?thesis by (simp add: f)
qed

subsection \<open>Sign-up and failed login\<close>












end
